theory Spec2Isabelle
  imports Main
begin

section \<open>The upload worker: values, requests and responses\<close>

text \<open>
  The worker (\<^verbatim>\<open>src/unnamed/part_004\<close>) is a Cloudflare Worker written in TypeScript.
  Strings are modelled as \<^typ>\<open>string\<close>, a \<^typ>\<open>char\<close> standing for a code unit below
  256; this covers the ASCII text the worker handles (origins, paths, folder and file
  names, addresses). An \<^verbatim>\<open>await\<close>ed promise is a value of \<open>string + 'a\<close>, where
  \<open>Inl msg\<close> is a rejection with \<^verbatim>\<open>new Error(msg)\<close>.
\<close>

type_synonym 'a promise = "string + 'a"

text \<open>
  A request body is whatever \<^verbatim>\<open>JSON.parse\<close> produces; the handlers inspect it at run time
  (\<^verbatim>\<open>!body.fileName\<close>, \<^verbatim>\<open>Array.isArray\<close>), so it is kept untyped. Of a number only
  zero or non-zero is ever observed.
\<close>

datatype json =
    JNull
  | JBool bool
  | JNum int
  | JStr string
  | JArr "json list"
  | JObj "(string \<times> json) list"

text \<open>\<^verbatim>\<open>body.k\<close> on a non-null value; \<open>None\<close> is \<^verbatim>\<open>undefined\<close>. In an object literal
  with a repeated key, the last occurrence wins.\<close>

fun get_prop :: "json \<Rightarrow> string \<Rightarrow> json option" where
  "get_prop (JObj kvs) k = map_of (rev kvs) k"
| "get_prop _ k = None"

text \<open>JavaScript truthiness, as used by \<^verbatim>\<open>!x\<close> and \<^verbatim>\<open>x || y\<close>.\<close>

fun truthy :: "json option \<Rightarrow> bool" where
  "truthy None = False"
| "truthy (Some JNull) = False"
| "truthy (Some (JBool b)) = b"
| "truthy (Some (JNum n)) = (n \<noteq> 0)"
| "truthy (Some (JStr s)) = (s \<noteq> [])"
| "truthy (Some (JArr xs)) = True"
| "truthy (Some (JObj kvs)) = True"

fun truthy_str :: "string option \<Rightarrow> bool" where
  "truthy_str None = False"
| "truthy_str (Some s) = (s \<noteq> [])"

text \<open>\<^verbatim>\<open>s.split(c)\<close> for a one-character separator: never the empty list.\<close>

fun split_on :: "char \<Rightarrow> string \<Rightarrow> string list" where
  "split_on c [] = [[]]"
| "split_on c (x # xs) =
     (if x = c then [] # split_on c xs
      else (case split_on c xs of
              [] \<Rightarrow> [[x]]
            | w # ws \<Rightarrow> (x # w) # ws))"

text \<open>\<^verbatim>\<open>s.trim()\<close>, on the white space below code unit 256: tab, line feed, vertical
  tab, form feed, carriage return, space, no-break space.\<close>

definition white_space :: "char \<Rightarrow> bool" where
  "white_space c =
     (c \<in> set [CHR 0x09, CHR 0x0A, CHR 0x0B, CHR 0x0C, CHR 0x0D, CHR 0x20, CHR 0xA0])"

definition trim :: "string \<Rightarrow> string" where
  "trim s = rev (dropWhile white_space (rev (dropWhile white_space s)))"

record Env =
  APILLON_API_KEY :: string
  APILLON_API_SECRET :: string
  APILLON_BUCKET_UUID :: string
  ALLOWED_ORIGINS :: string

text \<open>What the worker reads of a \<^verbatim>\<open>Request\<close>: its method, \<^verbatim>\<open>new URL(request.url).pathname\<close>,
  \<^verbatim>\<open>request.headers.get('Origin')\<close> and \<^verbatim>\<open>await request.json()\<close>.\<close>

record request =
  req_method :: string
  req_path :: string
  req_origin :: "string option"
  req_json :: "json promise"

text \<open>The three lists of the sync result; an entry starts with the submitted address.\<close>

record results =
  moved :: "(json \<times> string \<times> string) list"
  skipped :: "(json \<times> string) list"
  errors :: "(json \<times> string) list"

text \<open>The objects handed to \<^verbatim>\<open>jsonResponse\<close> (and \<^verbatim>\<open>null\<close> for a bodiless response).\<close>

datatype payload =
    NoBody
  | Error string
  | SyncFailed string string
  | Initiated string string string
  | Completed string
  | Synced results

record response =
  status :: nat
  headers :: "(string \<times> string) list"
  resp_body :: payload

definition jsonResponse :: "payload \<Rightarrow> nat \<Rightarrow> string option \<Rightarrow> response" where
  "jsonResponse data st origin =
     \<lparr>status = st,
      headers = (''Content-Type'', ''application/json'') #
                (if truthy_str origin then [(''Access-Control-Allow-Origin'', the origin)] else []),
      resp_body = data\<rparr>"

definition allowedOrigins :: "Env \<Rightarrow> string list" where
  "allowedOrigins env = map trim (split_on CHR '','' (ALLOWED_ORIGINS env))"

definition handleCORS :: "request \<Rightarrow> Env \<Rightarrow> response" where
  "handleCORS request env =
     (let origin = req_origin request in
      if \<not> truthy_str origin \<or> the origin \<notin> set (allowedOrigins env)
      then \<lparr>status = 403, headers = [], resp_body = NoBody\<rparr>
      else \<lparr>status = 204,
            headers = [(''Access-Control-Allow-Origin'', the origin),
                       (''Access-Control-Allow-Methods'', ''POST, OPTIONS''),
                       (''Access-Control-Allow-Headers'', ''Content-Type''),
                       (''Access-Control-Max-Age'', ''86400'')],
            resp_body = NoBody\<rparr>)"

section \<open>The storage backend\<close>

text \<open>
  Every \<^verbatim>\<open>fetch\<close> the worker issues goes to the storage backend (the Apillon API, the
  retrieval link of an object, or a signed upload URL). What the worker reads of a
  \<^verbatim>\<open>Response\<close>: \<^verbatim>\<open>ok\<close>, \<^verbatim>\<open>statusText\<close>, \<^verbatim>\<open>headers.get('content-type')\<close>, and
  the awaited \<^verbatim>\<open>text()\<close>, \<^verbatim>\<open>blob()\<close> and \<^verbatim>\<open>json()\<close>. The parsed body has the type the
  source casts it to; a field is optional where the source guards its absence.
\<close>

record 'j fetched =
  ok :: bool
  statusText :: string
  content_type :: "string option"
  text_body :: "string promise"
  blob_body :: "string promise"
  json_body :: "'j promise"

text \<open>\<^verbatim>\<open>ApillonUploadResponse\<close>, read as \<^verbatim>\<open>r.data?.sessionUuid\<close> and
  \<^verbatim>\<open>r.data?.files?.[0]?.url\<close>.\<close>

record upload_file =
  url :: "string option"
  upload_fileUuid :: string

record upload_data =
  sessionUuid :: "string option"
  files :: "upload_file list option"

record ApillonUploadResponse =
  upload_data :: "upload_data option"

text \<open>\<^verbatim>\<open>ApillonCompleteResponse\<close>, read as \<^verbatim>\<open>r.data?.success\<close>.\<close>

record complete_data =
  success :: bool

record ApillonCompleteResponse =
  complete_data :: "complete_data option"

text \<open>An item of the bucket listing \<^verbatim>\<open>data.data.items\<close>.\<close>

record item =
  item_name :: string
  item_fileUuid :: string
  item_path :: "string option"
  item_link :: "string option"
  item_CID :: "string option"
  item_CIDv1 :: "string option"

text \<open>
  The backend is a deterministic machine over a state \<open>'w\<close>, one transition function per
  kind of \<^verbatim>\<open>fetch\<close>; the outer \<open>Inl\<close> is a \<^verbatim>\<open>fetch\<close> that rejects (a network error).
\<close>

record 'w backend =
  get_files :: "'w \<Rightarrow> item list fetched promise \<times> 'w"
  post_upload :: "json \<Rightarrow> json \<Rightarrow> json \<Rightarrow> 'w \<Rightarrow> ApillonUploadResponse fetched promise \<times> 'w"
  post_upload_end :: "json \<Rightarrow> 'w \<Rightarrow> ApillonCompleteResponse fetched promise \<times> 'w"
  delete_file :: "string \<Rightarrow> 'w \<Rightarrow> unit fetched promise \<times> 'w"
  get_link :: "string \<Rightarrow> 'w \<Rightarrow> unit fetched promise \<times> 'w"
  put_url :: "string \<Rightarrow> string \<Rightarrow> string \<Rightarrow> 'w \<Rightarrow> unit fetched promise \<times> 'w"

text \<open>The calls made so far, oldest first, each with the reply it got.\<close>

datatype event =
    GetFiles "item list fetched promise"
  | PostUpload json json json "ApillonUploadResponse fetched promise"
  | PostUploadEnd json "ApillonCompleteResponse fetched promise"
  | DeleteFile string "unit fetched promise"
  | GetLink string "unit fetched promise"
  | PutUrl string string string "unit fetched promise"

type_synonym 'w state = "'w \<times> event list"

definition call :: "('w \<Rightarrow> 'r \<times> 'w) \<Rightarrow> ('r \<Rightarrow> event) \<Rightarrow> 'w state \<Rightarrow> 'r \<times> 'w state" where
  "call f ev s = (case f (fst s) of (r, w') \<Rightarrow> (r, (w', snd s @ [ev r])))"

section \<open>Storage gateway client\<close>

definition apillonInitiateUpload ::
  "'w backend \<Rightarrow> json \<Rightarrow> json \<Rightarrow> json \<Rightarrow> 'w state \<Rightarrow> ApillonUploadResponse promise \<times> 'w state" where
  "apillonInitiateUpload be fileName contentType directoryPath s =
     (case call (post_upload be fileName contentType directoryPath)
                (PostUpload fileName contentType directoryPath) s of
        (Inl e, s') \<Rightarrow> (Inl e, s')
      | (Inr response, s') \<Rightarrow>
          if \<not> ok response then
            (case text_body response of
               Inl e \<Rightarrow> (Inl e, s')
             | Inr errorText \<Rightarrow> (Inl (''Apillon initiate upload failed: '' @ errorText), s'))
          else (json_body response, s'))"

definition apillonCompleteUpload ::
  "'w backend \<Rightarrow> json \<Rightarrow> 'w state \<Rightarrow> ApillonCompleteResponse promise \<times> 'w state" where
  "apillonCompleteUpload be session s =
     (case call (post_upload_end be session) (PostUploadEnd session) s of
        (Inl e, s') \<Rightarrow> (Inl e, s')
      | (Inr response, s') \<Rightarrow>
          if \<not> ok response then
            (case text_body response of
               Inl e \<Rightarrow> (Inl e, s')
             | Inr errorText \<Rightarrow> (Inl (''Apillon complete upload failed: '' @ errorText), s'))
          else (json_body response, s'))"

definition deleteApillonFile :: "'w backend \<Rightarrow> string \<Rightarrow> 'w state \<Rightarrow> unit promise \<times> 'w state" where
  "deleteApillonFile be fileUuid s =
     (case call (delete_file be fileUuid) (DeleteFile fileUuid) s of
        (Inl e, s') \<Rightarrow> (Inl e, s')
      | (Inr response, s') \<Rightarrow>
          if \<not> ok response then
            (case text_body response of
               Inl e \<Rightarrow> (Inl e, s')
             | Inr errorText \<Rightarrow> (Inl (''Failed to delete file: '' @ errorText), s'))
          else (Inr (), s'))"

section \<open>Folder index\<close>

record listed =
  file_name :: string
  file_uuid :: string
  file_link :: "string option"
  file_cid :: "string option"

text \<open>\<^verbatim>\<open>a || b\<close> on optional strings.\<close>

definition or_else :: "string option \<Rightarrow> string option \<Rightarrow> string option" where
  "or_else a b = (if truthy_str a then a else b)"

text \<open>The two callbacks of \<^verbatim>\<open>listFilesInFolder\<close>: the filter
  \<^verbatim>\<open>(file.path || '') === `${folder}/`\<close> and the projection of an item.\<close>

definition in_folder :: "string \<Rightarrow> item \<Rightarrow> bool" where
  "in_folder folder file =
     (let filePath = (if truthy_str (item_path file) then the (item_path file) else [])
      in filePath = folder @ ''/'')"

definition listed_of :: "item \<Rightarrow> listed" where
  "listed_of file =
     \<lparr>file_name = item_name file,
      file_uuid = item_fileUuid file,
      file_link = item_link file,
      file_cid = or_else (item_CIDv1 file) (item_CID file)\<rparr>"

definition listFilesInFolder :: "'w backend \<Rightarrow> string \<Rightarrow> 'w state \<Rightarrow> listed list promise \<times> 'w state" where
  "listFilesInFolder be folder s =
     (case call (get_files be) GetFiles s of
        (Inl e, s') \<Rightarrow> (Inl e, s')
      | (Inr response, s') \<Rightarrow>
          if \<not> ok response then
            (case text_body response of
               Inl e \<Rightarrow> (Inl e, s')
             | Inr errorText \<Rightarrow> (Inl (''Failed to list files: '' @ errorText), s'))
          else
            (case json_body response of
               Inl e \<Rightarrow> (Inl e, s')
             | Inr items \<Rightarrow>
                 (Inr (map listed_of (filter (in_folder folder) items)), s')))"

section \<open>Move engine\<close>

text \<open>The optional chains \<^verbatim>\<open>r.data?.sessionUuid\<close>, \<^verbatim>\<open>r.data?.files?.[0]\<close> and
  \<^verbatim>\<open>r.data?.files?.[0]?.url\<close>.\<close>

definition data_sessionUuid :: "ApillonUploadResponse \<Rightarrow> string option" where
  "data_sessionUuid r = (case upload_data r of None \<Rightarrow> None | Some d \<Rightarrow> sessionUuid d)"

definition data_files_0 :: "ApillonUploadResponse \<Rightarrow> upload_file option" where
  "data_files_0 r =
     (case upload_data r of
        None \<Rightarrow> None
      | Some d \<Rightarrow> (case files d of None \<Rightarrow> None | Some [] \<Rightarrow> None | Some (f # fs) \<Rightarrow> Some f))"

definition data_files_0_url :: "ApillonUploadResponse \<Rightarrow> string option" where
  "data_files_0_url r = (case data_files_0 r of None \<Rightarrow> None | Some f \<Rightarrow> url f)"

text \<open>
  \<^verbatim>\<open>moveFile\<close>: download, open an upload session in the target folder, PUT the bytes,
  complete the session, delete the original. Each \<^verbatim>\<open>throw\<close> and each rejected
  \<^verbatim>\<open>await\<close> leaves with \<open>Inl\<close>. The value \<^verbatim>\<open>apillonCompleteUpload\<close> resolves to is
  discarded by the source.
\<close>

definition moveFile ::
  "'w backend \<Rightarrow> string \<Rightarrow> string \<Rightarrow> string \<Rightarrow> string option \<Rightarrow> 'w state \<Rightarrow> unit promise \<times> 'w state" where
  "moveFile be fromPath toPath fileUuid fileLink s =
     (if \<not> truthy_str fileLink then (Inl ''File link is required to download file'', s)
      else
        (case call (get_link be (the fileLink)) (GetLink (the fileLink)) s of
           (Inl e, s1) \<Rightarrow> (Inl e, s1)
         | (Inr fileResponse, s1) \<Rightarrow>
             if \<not> ok fileResponse
             then (Inl (''Failed to download file: '' @ statusText fileResponse), s1)
             else
               (case blob_body fileResponse of
                  Inl e \<Rightarrow> (Inl e, s1)
                | Inr fileBlob \<Rightarrow>
                    (let popped = last (split_on CHR ''/'' toPath);
                         fileName = (if popped \<noteq> [] then popped else ''unknown'');
                         contentType = (if truthy_str (content_type fileResponse)
                                        then the (content_type fileResponse)
                                        else ''application/octet-stream'');
                         targetFolder = hd (split_on CHR ''/'' toPath)
                     in (case apillonInitiateUpload be (JStr fileName) (JStr contentType)
                                (JStr targetFolder) s1 of
                           (Inl e, s2) \<Rightarrow> (Inl e, s2)
                         | (Inr uploadSession, s2) \<Rightarrow>
                             if \<not> truthy_str (data_sessionUuid uploadSession)
                                \<or> \<not> truthy_str (data_files_0_url uploadSession)
                             then (Inl ''Failed to initiate upload to new location'', s2)
                             else
                               (let uploadUrl = the (data_files_0_url uploadSession) in
                                (case call (put_url be uploadUrl fileBlob contentType)
                                           (PutUrl uploadUrl fileBlob contentType) s2 of
                                   (Inl e, s3) \<Rightarrow> (Inl e, s3)
                                 | (Inr uploadResponse, s3) \<Rightarrow>
                                     if \<not> ok uploadResponse
                                     then (Inl (''Failed to upload file: ''
                                                 @ statusText uploadResponse), s3)
                                     else
                                       (case apillonCompleteUpload be
                                               (JStr (the (data_sessionUuid uploadSession))) s3 of
                                          (Inl e, s4) \<Rightarrow> (Inl e, s4)
                                        | (Inr completed, s4) \<Rightarrow>
                                            deleteApillonFile be fileUuid s4))))))))"

section \<open>Upload session manager\<close>

definition handleInitiateUpload ::
  "'w backend \<Rightarrow> request \<Rightarrow> Env \<Rightarrow> string \<Rightarrow> 'w state \<Rightarrow> response promise \<times> 'w state" where
  "handleInitiateUpload be request env origin s =
     (case req_json request of
        Inl e \<Rightarrow> (Inl e, s)
      | Inr body \<Rightarrow>
          if body = JNull then (Inl ''TypeError: Cannot read properties of null'', s)
          else if \<not> truthy (get_prop body ''fileName'')
                  \<or> \<not> truthy (get_prop body ''contentType'')
                  \<or> \<not> truthy (get_prop body ''directoryPath'')
          then (Inr (jsonResponse (Error ''Missing required fields'') 400 (Some origin)), s)
          else if get_prop body ''directoryPath'' \<noteq> Some (JStr ''pending'')
                  \<and> get_prop body ''directoryPath'' \<noteq> Some (JStr ''approved'')
          then (Inr (jsonResponse (Error ''Invalid directoryPath'') 400 (Some origin)), s)
          else
            (case apillonInitiateUpload be (the (get_prop body ''fileName''))
                    (the (get_prop body ''contentType''))
                    (the (get_prop body ''directoryPath'')) s of
               (Inl e, s') \<Rightarrow> (Inl e, s')
             | (Inr initiateResponse, s') \<Rightarrow>
                 if \<not> truthy_str (data_sessionUuid initiateResponse)
                    \<or> \<not> truthy_str (data_files_0_url initiateResponse)
                 then (Inr (jsonResponse (Error ''Failed to initiate upload session'') 500
                              (Some origin)), s')
                 else (Inr (jsonResponse
                              (Initiated (the (data_sessionUuid initiateResponse))
                                 (the (data_files_0_url initiateResponse))
                                 (upload_fileUuid (the (data_files_0 initiateResponse))))
                              200 (Some origin)), s')))"

text \<open>\<^verbatim>\<open>r.data?.success\<close>.\<close>

definition data_success :: "ApillonCompleteResponse \<Rightarrow> bool" where
  "data_success r = (case complete_data r of None \<Rightarrow> False | Some d \<Rightarrow> success d)"

definition handleCompleteUpload ::
  "'w backend \<Rightarrow> request \<Rightarrow> Env \<Rightarrow> string \<Rightarrow> 'w state \<Rightarrow> response promise \<times> 'w state" where
  "handleCompleteUpload be request env origin s =
     (case req_json request of
        Inl e \<Rightarrow> (Inl e, s)
      | Inr body \<Rightarrow>
          if body = JNull then (Inl ''TypeError: Cannot read properties of null'', s)
          else if \<not> truthy (get_prop body ''sessionUuid'')
          then (Inr (jsonResponse (Error ''Missing sessionUuid'') 400 (Some origin)), s)
          else
            (case apillonCompleteUpload be (the (get_prop body ''sessionUuid'')) s of
               (Inl e, s') \<Rightarrow> (Inl e, s')
             | (Inr completeResponse, s') \<Rightarrow>
                 if \<not> data_success completeResponse
                 then (Inr (jsonResponse (Error ''Failed to complete upload session'') 500
                              (Some origin)), s')
                 else (Inr (jsonResponse (Completed ''Upload completed successfully'') 200
                              (Some origin)), s')))"

section \<open>Batch sync coordinator\<close>

text \<open>
  \<^verbatim>\<open>file.name.match(/^(.+)\.([^.]+)$/)\<close>. The second group holds no dot and reaches the
  end of the name, so the dot the pattern names is the last one of the name; the first
  group is everything before it, non-empty, and \<^verbatim>\<open>.\<close> matches no line terminator (of
  these, line feed and carriage return are code units below 256). The result is the pair
  of groups (address, extension), or \<open>None\<close> for \<^verbatim>\<open>null\<close>.
\<close>

definition line_terminator :: "char \<Rightarrow> bool" where
  "line_terminator c = (c = CHR 0x0A \<or> c = CHR 0x0D)"

definition match_name :: "string \<Rightarrow> (string \<times> string) option" where
  "match_name name =
     (let extension = rev (takeWhile (\<lambda>c. c \<noteq> CHR ''.'') (rev name));
          address = rev (drop 1 (dropWhile (\<lambda>c. c \<noteq> CHR ''.'') (rev name)))
      in if CHR ''.'' \<in> set name \<and> address \<noteq> [] \<and> extension \<noteq> []
            \<and> filter line_terminator address = []
         then Some (address, extension) else None)"

record fileInfo =
  info_fileName :: string
  info_fileUuid :: string
  info_extension :: string
  info_link :: "string option"

text \<open>The loop filling \<^verbatim>\<open>pendingMap\<close>: a later file with the same address replaces an
  earlier one.\<close>

definition pendingMap_set :: "(string \<rightharpoonup> fileInfo) \<Rightarrow> listed \<Rightarrow> (string \<rightharpoonup> fileInfo)" where
  "pendingMap_set m file =
     (case match_name (file_name file) of
        None \<Rightarrow> m
      | Some (address, extension) \<Rightarrow>
          m(address \<mapsto> \<lparr>info_fileName = file_name file,
                          info_fileUuid = file_uuid file,
                          info_extension = extension,
                          info_link = file_link file\<rparr>))"

definition pendingMap_of :: "listed list \<Rightarrow> (string \<rightharpoonup> fileInfo)" where
  "pendingMap_of pendingFiles = foldl pendingMap_set Map.empty pendingFiles"

text \<open>\<^verbatim>\<open>pendingMap.get(address)\<close>: the keys are strings, so only a string finds one.\<close>

fun pendingMap_get :: "(string \<rightharpoonup> fileInfo) \<Rightarrow> json \<Rightarrow> fileInfo option" where
  "pendingMap_get m (JStr a) = m a"
| "pendingMap_get m _ = None"

text \<open>The loop over \<^verbatim>\<open>limitedAddresses\<close>, with its \<^verbatim>\<open>try\<close>/\<^verbatim>\<open>catch\<close> around each
  address.\<close>

fun sync_loop ::
  "'w backend \<Rightarrow> (string \<rightharpoonup> fileInfo) \<Rightarrow> json list \<Rightarrow> results \<Rightarrow> 'w state \<Rightarrow> results \<times> 'w state" where
  "sync_loop be pendingMap [] res s = (res, s)"
| "sync_loop be pendingMap (address # rest) res s =
     (case pendingMap_get pendingMap address of
        None \<Rightarrow>
          sync_loop be pendingMap rest
            (res\<lparr>skipped := skipped res @ [(address, ''No pending image found'')]\<rparr>) s
      | Some fileInfo \<Rightarrow>
          (case moveFile be (''pending/'' @ info_fileName fileInfo)
                  (''approved/'' @ info_fileName fileInfo)
                  (info_fileUuid fileInfo) (info_link fileInfo) s of
             (Inr u, s') \<Rightarrow>
               sync_loop be pendingMap rest
                 (res\<lparr>moved := moved res @ [(address, ''pending/'' @ info_fileName fileInfo,
                                               ''approved/'' @ info_fileName fileInfo)]\<rparr>) s'
           | (Inl e, s') \<Rightarrow>
               sync_loop be pendingMap rest
                 (res\<lparr>errors := errors res @ [(address, e)]\<rparr>) s'))"

text \<open>The body of the outer \<^verbatim>\<open>try\<close>; \<open>Inl\<close> is what its \<^verbatim>\<open>catch\<close> receives.
  \<^verbatim>\<open>body.addresses || []\<close> is the empty array when the field is falsy.\<close>

definition sync_try ::
  "'w backend \<Rightarrow> request \<Rightarrow> Env \<Rightarrow> string \<Rightarrow> 'w state \<Rightarrow> response promise \<times> 'w state" where
  "sync_try be request env origin s =
     (case req_json request of
        Inl e \<Rightarrow> (Inl e, s)
      | Inr body \<Rightarrow>
          if body = JNull then (Inl ''TypeError: Cannot read properties of null'', s)
          else
            (let addresses = (if truthy (get_prop body ''addresses'')
                              then the (get_prop body ''addresses'') else JArr [])
             in (case addresses of
                   JArr xs \<Rightarrow>
                     if xs = []
                     then (Inr (jsonResponse (Error ''Invalid addresses array'') 400 (Some origin)), s)
                     else
                       (let limitedAddresses = take 50 xs in
                        (case listFilesInFolder be ''pending'' s of
                           (Inl e, s') \<Rightarrow> (Inl e, s')
                         | (Inr pendingFiles, s') \<Rightarrow>
                             (case sync_loop be (pendingMap_of pendingFiles) limitedAddresses
                                     \<lparr>moved = [], skipped = [], errors = []\<rparr> s' of
                                (res, s'') \<Rightarrow>
                                  (Inr (jsonResponse (Synced res) 200 (Some origin)), s''))))
                 | _ \<Rightarrow>
                     (Inr (jsonResponse (Error ''Invalid addresses array'') 400 (Some origin)), s))))"

definition handleSyncApprovedMembers ::
  "'w backend \<Rightarrow> request \<Rightarrow> Env \<Rightarrow> string \<Rightarrow> 'w state \<Rightarrow> response promise \<times> 'w state" where
  "handleSyncApprovedMembers be request env origin s =
     (if req_method request \<noteq> ''POST''
      then (Inr (jsonResponse (Error ''Method not allowed'') 405 (Some origin)), s)
      else
        (case sync_try be request env origin s of
           (Inl e, s') \<Rightarrow> (Inr (jsonResponse (SyncFailed ''Sync failed'' e) 500 (Some origin)), s')
         | (Inr response, s') \<Rightarrow> (Inr response, s')))"

section \<open>Origin guard and routing\<close>

text \<open>
  The exported \<^verbatim>\<open>fetch\<close> handler. Its \<^verbatim>\<open>try\<close> returns the handlers' promises without
  awaiting them, so a handler's rejection is the rejection of \<^verbatim>\<open>fetch\<close> itself and the
  \<^verbatim>\<open>catch\<close> is never entered.
\<close>

definition fetch :: "'w backend \<Rightarrow> request \<Rightarrow> Env \<Rightarrow> 'w state \<Rightarrow> response promise \<times> 'w state" where
  "fetch be request env s =
     (let path = req_path request in
      if req_method request = ''OPTIONS'' then (Inr (handleCORS request env), s)
      else
        (let origin = req_origin request in
         if \<not> truthy_str origin \<or> the origin \<notin> set (allowedOrigins env)
         then (Inr (jsonResponse (Error ''Unauthorized origin'') 403 None), s)
         else if path = ''/initiate'' then handleInitiateUpload be request env (the origin) s
         else if path = ''/complete'' then handleCompleteUpload be request env (the origin) s
         else if path = ''/sync-approved-members''
         then handleSyncApprovedMembers be request env (the origin) s
         else (Inr (jsonResponse (Error ''Invalid endpoint'') 404 origin), s)))"

section \<open>A backend for concrete runs\<close>

text \<open>
  A small in-memory bucket, used to run the worker on concrete inputs. Its state is the
  list of stored items. Listing returns them; a retrieval link is served when some item
  carries it; an upload session always opens as \<open>s-1\<close>; completing a session answers
  HTTP 200 with \<^verbatim>\<open>data.success\<close> as given by the parameter; deleting removes the item with
  that identifier and refuses when there is none.
\<close>

definition accepted :: "'j \<Rightarrow> 'j fetched" where
  "accepted j =
     \<lparr>ok = True, statusText = ''OK'', content_type = Some ''image/jpeg'',
      text_body = Inr [], blob_body = Inr ''bytes'', json_body = Inr j\<rparr>"

definition refused :: "string \<Rightarrow> 'j fetched" where
  "refused msg =
     \<lparr>ok = False, statusText = ''Not Found'', content_type = None,
      text_body = Inr msg, blob_body = Inr [], json_body = Inl ''Unexpected end of JSON input''\<rparr>"

definition bucket :: "bool \<Rightarrow> (item list) backend" where
  "bucket completes =
     \<lparr>get_files = (\<lambda>w. (Inr (accepted w), w)),
      post_upload = (\<lambda>fileName contentType directoryPath w.
         (Inr (accepted \<lparr>upload_data = Some \<lparr>sessionUuid = Some ''s-1'',
                  files = Some [\<lparr>url = Some ''https://upload/1'', upload_fileUuid = ''f-1''\<rparr>]\<rparr>\<rparr>), w)),
      post_upload_end = (\<lambda>session w.
         (Inr (accepted \<lparr>complete_data = Some \<lparr>success = completes\<rparr>\<rparr>), w)),
      delete_file = (\<lambda>fileUuid w.
         if fileUuid \<in> set (map item_fileUuid w)
         then (Inr (accepted ()), filter (\<lambda>i. item_fileUuid i \<noteq> fileUuid) w)
         else (Inr (refused ''File does not exist''), w)),
      get_link = (\<lambda>link w.
         if Some link \<in> set (map item_link w) then (Inr (accepted ()), w)
         else (Inr (refused []), w)),
      put_url = (\<lambda>uploadUrl fileBlob contentType w. (Inr (accepted ()), w))\<rparr>"

definition stored :: "string \<Rightarrow> string \<Rightarrow> string \<Rightarrow> string option \<Rightarrow> item" where
  "stored folder name fileUuid link =
     \<lparr>item_name = name, item_fileUuid = fileUuid, item_path = Some (folder @ ''/''),
      item_link = link, item_CID = None, item_CIDv1 = None\<rparr>"

definition env0 :: Env where
  "env0 = \<lparr>APILLON_API_KEY = ''key'', APILLON_API_SECRET = ''secret'',
            APILLON_BUCKET_UUID = ''bucket'',
            ALLOWED_ORIGINS = ''https://kappasigmamu.github.io, http://localhost:3000''\<rparr>"

definition post :: "string \<Rightarrow> string option \<Rightarrow> json \<Rightarrow> request" where
  "post path origin body =
     \<lparr>req_method = ''POST'', req_path = path, req_origin = origin, req_json = Inr body\<rparr>"

text \<open>Fifty-one distinct addresses, and the skipped entries of the first fifty.\<close>

definition ids51 :: "json list" where
  "ids51 =
     [JStr ''01'', JStr ''02'', JStr ''03'', JStr ''04'', JStr ''05'', JStr ''06'',
      JStr ''07'', JStr ''08'', JStr ''09'', JStr ''10'', JStr ''11'', JStr ''12'',
      JStr ''13'', JStr ''14'', JStr ''15'', JStr ''16'', JStr ''17'', JStr ''18'',
      JStr ''19'', JStr ''20'', JStr ''21'', JStr ''22'', JStr ''23'', JStr ''24'',
      JStr ''25'', JStr ''26'', JStr ''27'', JStr ''28'', JStr ''29'', JStr ''30'',
      JStr ''31'', JStr ''32'', JStr ''33'', JStr ''34'', JStr ''35'', JStr ''36'',
      JStr ''37'', JStr ''38'', JStr ''39'', JStr ''40'', JStr ''41'', JStr ''42'',
      JStr ''43'', JStr ''44'', JStr ''45'', JStr ''46'', JStr ''47'', JStr ''48'',
      JStr ''49'', JStr ''50'', JStr ''51'']"

definition skipped50 :: "(json \<times> string) list" where
  "skipped50 =
     [(JStr ''01'', ''No pending image found''),
      (JStr ''02'', ''No pending image found''),
      (JStr ''03'', ''No pending image found''),
      (JStr ''04'', ''No pending image found''),
      (JStr ''05'', ''No pending image found''),
      (JStr ''06'', ''No pending image found''),
      (JStr ''07'', ''No pending image found''),
      (JStr ''08'', ''No pending image found''),
      (JStr ''09'', ''No pending image found''),
      (JStr ''10'', ''No pending image found''),
      (JStr ''11'', ''No pending image found''),
      (JStr ''12'', ''No pending image found''),
      (JStr ''13'', ''No pending image found''),
      (JStr ''14'', ''No pending image found''),
      (JStr ''15'', ''No pending image found''),
      (JStr ''16'', ''No pending image found''),
      (JStr ''17'', ''No pending image found''),
      (JStr ''18'', ''No pending image found''),
      (JStr ''19'', ''No pending image found''),
      (JStr ''20'', ''No pending image found''),
      (JStr ''21'', ''No pending image found''),
      (JStr ''22'', ''No pending image found''),
      (JStr ''23'', ''No pending image found''),
      (JStr ''24'', ''No pending image found''),
      (JStr ''25'', ''No pending image found''),
      (JStr ''26'', ''No pending image found''),
      (JStr ''27'', ''No pending image found''),
      (JStr ''28'', ''No pending image found''),
      (JStr ''29'', ''No pending image found''),
      (JStr ''30'', ''No pending image found''),
      (JStr ''31'', ''No pending image found''),
      (JStr ''32'', ''No pending image found''),
      (JStr ''33'', ''No pending image found''),
      (JStr ''34'', ''No pending image found''),
      (JStr ''35'', ''No pending image found''),
      (JStr ''36'', ''No pending image found''),
      (JStr ''37'', ''No pending image found''),
      (JStr ''38'', ''No pending image found''),
      (JStr ''39'', ''No pending image found''),
      (JStr ''40'', ''No pending image found''),
      (JStr ''41'', ''No pending image found''),
      (JStr ''42'', ''No pending image found''),
      (JStr ''43'', ''No pending image found''),
      (JStr ''44'', ''No pending image found''),
      (JStr ''45'', ''No pending image found''),
      (JStr ''46'', ''No pending image found''),
      (JStr ''47'', ''No pending image found''),
      (JStr ''48'', ''No pending image found''),
      (JStr ''49'', ''No pending image found''),
      (JStr ''50'', ''No pending image found'')]"

text \<open>Whether a logged call is a deletion.\<close>

definition is_delete :: "event \<Rightarrow> bool" where
  "is_delete ev = (case ev of DeleteFile u d \<Rightarrow> True | _ \<Rightarrow> False)"

section \<open>Properties\<close>

subsection \<open>Auxiliary facts: responses and folders\<close>

lemma status_jsonResponse: "status (jsonResponse d st origin) = st"
  and resp_body_jsonResponse: "resp_body (jsonResponse d st origin) = d"
  by (simp_all add: jsonResponse_def)

lemma in_folder_iff: "in_folder folder file \<longleftrightarrow> item_path file = Some (folder @ ''/'')"
  by (auto simp: in_folder_def Let_def split: option.splits elim: truthy_str.elims)

subsection \<open>Auxiliary facts: file names\<close>

lemma split_at_last_dot:
  assumes "name = address @ CHR ''.'' # extension" and "CHR ''.'' \<notin> set extension"
  shows "rev (takeWhile (\<lambda>c. c \<noteq> CHR ''.'') (rev name)) = extension"
    and "rev (drop 1 (dropWhile (\<lambda>c. c \<noteq> CHR ''.'') (rev name))) = address"
proof -
  let ?P = "\<lambda>c. c \<noteq> CHR ''.''"
  from assms(2) have all: "\<And>x. x \<in> set (rev extension) \<Longrightarrow> ?P x" by auto
  have "takeWhile ?P (rev extension @ CHR ''.'' # rev address) = rev extension"
    using takeWhile_append2 [of "rev extension" ?P, OF all] by simp
  with assms(1) show "rev (takeWhile ?P (rev name)) = extension" by simp
  have "dropWhile ?P (rev extension @ CHR ''.'' # rev address) = CHR ''.'' # rev address"
    using dropWhile_append2 [of "rev extension" ?P, OF all] by simp
  with assms(1) show "rev (drop 1 (dropWhile ?P (rev name))) = address" by simp
qed

lemma last_dot_decomposition:
  assumes "CHR ''.'' \<in> set name"
  shows "name = rev (drop 1 (dropWhile (\<lambda>c. c \<noteq> CHR ''.'') (rev name)))
                @ CHR ''.'' # rev (takeWhile (\<lambda>c. c \<noteq> CHR ''.'') (rev name))"
proof -
  let ?P = "\<lambda>c. c \<noteq> CHR ''.''"
  from assms have "dropWhile ?P (rev name) \<noteq> []" by simp
  then obtain d ds where d: "dropWhile ?P (rev name) = d # ds"
    by (cases "dropWhile ?P (rev name)") auto
  with hd_dropWhile [of ?P "rev name"] have "d = CHR ''.''" by simp
  with d have "rev name = takeWhile ?P (rev name) @ CHR ''.'' # drop 1 (dropWhile ?P (rev name))"
    using takeWhile_dropWhile_id [of ?P "rev name"] by simp
  then have "rev (rev name)
      = rev (takeWhile ?P (rev name) @ CHR ''.'' # drop 1 (dropWhile ?P (rev name)))"
    by simp
  then show ?thesis by simp
qed

lemma match_name_Some_iff:
  "match_name name = Some (address, extension) \<longleftrightarrow>
     name = address @ CHR ''.'' # extension \<and> CHR ''.'' \<notin> set extension
     \<and> address \<noteq> [] \<and> extension \<noteq> [] \<and> filter line_terminator address = []"
proof
  assume m: "match_name name = Some (address, extension)"
  let ?P = "\<lambda>c. c \<noteq> CHR ''.''"
  from m have dot: "CHR ''.'' \<in> set name"
    and ext: "extension = rev (takeWhile ?P (rev name))"
    and addr: "address = rev (drop 1 (dropWhile ?P (rev name)))"
    and rest: "address \<noteq> []" "extension \<noteq> []" "filter line_terminator address = []"
    by (auto simp: match_name_def Let_def split: if_splits)
  from last_dot_decomposition [OF dot] ext addr have "name = address @ CHR ''.'' # extension"
    by simp
  moreover from ext have "CHR ''.'' \<notin> set extension"
    by (auto dest: set_takeWhileD)
  ultimately show "name = address @ CHR ''.'' # extension \<and> CHR ''.'' \<notin> set extension
     \<and> address \<noteq> [] \<and> extension \<noteq> [] \<and> filter line_terminator address = []"
    using rest by simp
next
  assume r: "name = address @ CHR ''.'' # extension \<and> CHR ''.'' \<notin> set extension
     \<and> address \<noteq> [] \<and> extension \<noteq> [] \<and> filter line_terminator address = []"
  then have "rev (takeWhile (\<lambda>c. c \<noteq> CHR ''.'') (rev name)) = extension"
    and "rev (drop 1 (dropWhile (\<lambda>c. c \<noteq> CHR ''.'') (rev name))) = address"
    using split_at_last_dot by blast+
  moreover from r have "CHR ''.'' \<in> set name" by simp
  ultimately show "match_name name = Some (address, extension)"
    using r by (simp add: match_name_def Let_def)
qed

lemma match_name_no_extension:
  "CHR ''.'' \<notin> set name \<or> (\<exists>stem. name = stem @ ''.'') \<Longrightarrow> match_name name = None"
  by (auto simp: match_name_def Let_def)

subsection \<open>Auxiliary facts: the pending map\<close>

lemma pendingMap_of_snoc:
  "pendingMap_of (fs @ [f]) = pendingMap_set (pendingMap_of fs) f"
  by (simp add: pendingMap_of_def)

lemma pendingMap_of_Some:
  "pendingMap_of pendingFiles a = Some info \<Longrightarrow>
     \<exists>file \<in> set pendingFiles.
        match_name (file_name file) = Some (a, info_extension info)
        \<and> info_fileName info = file_name file \<and> info_fileUuid info = file_uuid file
        \<and> info_link info = file_link file"
proof (induction pendingFiles arbitrary: info rule: rev_induct)
  case Nil
  then show ?case by (simp add: pendingMap_of_def)
next
  case (snoc f fs)
  show ?case
  proof (cases "match_name (file_name f)")
    case None
    with snoc.prems have "pendingMap_of fs a = Some info"
      by (simp add: pendingMap_of_snoc pendingMap_set_def)
    from snoc.IH [OF this] show ?thesis by auto
  next
    case (Some p)
    obtain address extension where p: "p = (address, extension)" by (cases p)
    show ?thesis
    proof (cases "a = address")
      case True
      with Some p snoc.prems show ?thesis
        by (auto simp: pendingMap_of_snoc pendingMap_set_def)
    next
      case False
      with Some p snoc.prems have "pendingMap_of fs a = Some info"
        by (simp add: pendingMap_of_snoc pendingMap_set_def)
      from snoc.IH [OF this] show ?thesis by auto
    qed
  qed
qed

lemma pendingMap_of_None_iff:
  "pendingMap_of pendingFiles a = None \<longleftrightarrow>
     (\<forall>file \<in> set pendingFiles. \<forall>extension. match_name (file_name file) \<noteq> Some (a, extension))"
proof (induction pendingFiles rule: rev_induct)
  case Nil
  then show ?case by (simp add: pendingMap_of_def)
next
  case (snoc f fs)
  show ?case
  proof (cases "match_name (file_name f)")
    case None
    with snoc.IH show ?thesis
      by (auto simp: pendingMap_of_snoc pendingMap_set_def)
  next
    case (Some p)
    obtain address extension where p: "p = (address, extension)" by (cases p)
    with Some snoc.IH show ?thesis
      by (auto simp: pendingMap_of_snoc pendingMap_set_def)
  qed
qed

lemma pendingMap_get_empty: "pendingMap_get Map.empty a = None"
  by (cases a) simp_all

subsection \<open>Auxiliary facts: the calls of the move engine\<close>

lemma moveFile_no_link:
  "\<not> truthy_str fileLink \<Longrightarrow>
     moveFile be fromPath toPath fileUuid fileLink s
       = (Inl ''File link is required to download file'', s)"
  by (simp add: moveFile_def)

lemma deleteApillonFile_log:
  "deleteApillonFile be u s = (r, s') \<Longrightarrow> \<exists>d. snd s' = snd s @ [DeleteFile u d]"
  by (auto simp: deleteApillonFile_def call_def split: prod.splits sum.splits if_splits)

lemma apillonCompleteUpload_log:
  "apillonCompleteUpload be session s = (r, s') \<Longrightarrow>
     \<exists>c. snd s' = snd s @ [PostUploadEnd session c]
        \<and> (\<forall>v. r = Inr v \<longrightarrow> (\<exists>response. c = Inr response \<and> ok response \<and> json_body response = Inr v))"
  by (auto simp: apillonCompleteUpload_def call_def split: prod.splits sum.splits if_splits)

lemma apillonInitiateUpload_log:
  "apillonInitiateUpload be fileName ct folder s = (r, s') \<Longrightarrow>
     \<exists>p. snd s' = snd s @ [PostUpload fileName ct folder p]
        \<and> (\<forall>v. r = Inr v \<longrightarrow> (\<exists>response. p = Inr response \<and> ok response \<and> json_body response = Inr v))"
  by (auto simp: apillonInitiateUpload_def call_def split: prod.splits sum.splits if_splits)

lemma moveFile_log:
  assumes "moveFile be fromPath toPath fileUuid fileLink s = (r, s')"
  shows "\<exists>evs. snd s' = snd s @ evs \<and>
           ((\<exists>e. r = Inl e) \<and> filter is_delete evs = []
            \<or> (\<exists>link g name ct folder p uploadUrl fileBlob pu session c d.
                  fileLink = Some link
                  \<and> evs = [GetLink link (Inr g), PostUpload name (JStr ct) folder (Inr p),
                           PutUrl uploadUrl fileBlob ct (Inr pu),
                           PostUploadEnd session (Inr c), DeleteFile fileUuid d]
                  \<and> ok g \<and> ok p \<and> ok pu \<and> ok c))"
proof (cases "truthy_str fileLink")
  case False
  with assms show ?thesis by (auto simp: moveFile_def)
next
  case True
  then obtain link where link: "fileLink = Some link" by (cases fileLink) auto
  from assms show ?thesis
    unfolding moveFile_def link Let_def
    by (auto simp: call_def is_delete_def
             split: prod.splits sum.splits if_splits
             dest!: apillonInitiateUpload_log apillonCompleteUpload_log deleteApillonFile_log)
qed

subsection \<open>Auxiliary facts: the loop over the addresses\<close>

lemma sync_loop_ConsE:
  assumes "sync_loop be m (x # xs) res s = (res', s')"
  obtains
    (skip) "pendingMap_get m x = None"
      "sync_loop be m xs (res\<lparr>skipped := skipped res @ [(x, ''No pending image found'')]\<rparr>) s
         = (res', s')"
  | (move) info t where "pendingMap_get m x = Some info"
      "moveFile be (''pending/'' @ info_fileName info) (''approved/'' @ info_fileName info)
         (info_fileUuid info) (info_link info) s = (Inr (), t)"
      "sync_loop be m xs
         (res\<lparr>moved := moved res @ [(x, ''pending/'' @ info_fileName info,
                                       ''approved/'' @ info_fileName info)]\<rparr>) t = (res', s')"
  | (fail) info e t where "pendingMap_get m x = Some info"
      "moveFile be (''pending/'' @ info_fileName info) (''approved/'' @ info_fileName info)
         (info_fileUuid info) (info_link info) s = (Inl e, t)"
      "sync_loop be m xs (res\<lparr>errors := errors res @ [(x, e)]\<rparr>) t = (res', s')"
proof (cases "pendingMap_get m x")
  case None
  with assms skip show ?thesis by simp
next
  case (Some info)
  obtain r t where mv: "moveFile be (''pending/'' @ info_fileName info)
      (''approved/'' @ info_fileName info) (info_fileUuid info) (info_link info) s = (r, t)"
    by (cases "moveFile be (''pending/'' @ info_fileName info)
      (''approved/'' @ info_fileName info) (info_fileUuid info) (info_link info) s")
  show ?thesis
  proof (cases r)
    case (Inl e)
    with Some mv assms fail show ?thesis by simp
  next
    case (Inr u)
    with Some mv assms move show ?thesis by simp
  qed
qed

lemma sync_loop_append:
  "sync_loop be m (xs @ ys) res s =
     (case sync_loop be m xs res s of (res1, s1) \<Rightarrow> sync_loop be m ys res1 s1)"
  by (induction xs arbitrary: res s) (auto split: option.splits prod.splits sum.splits)

lemma sync_loop_length:
  "sync_loop be m xs res s = (res', s') \<Longrightarrow>
     length (moved res') + length (skipped res') + length (errors res')
       = length (moved res) + length (skipped res) + length (errors res) + length xs"
proof (induction xs arbitrary: res s)
  case Nil
  then show ?case by simp
next
  case (Cons x xs)
  from Cons.prems show ?case
    by (cases rule: sync_loop_ConsE) (auto dest!: Cons.IH)
qed

lemma sync_loop_count:
  "sync_loop be m xs res s = (res', s') \<Longrightarrow>
     count_list (map fst (moved res')) a + count_list (map fst (skipped res')) a
       + count_list (map fst (errors res')) a
     = count_list (map fst (moved res)) a + count_list (map fst (skipped res)) a
       + count_list (map fst (errors res)) a + count_list xs a"
proof (induction xs arbitrary: res s)
  case Nil
  then show ?case by simp
next
  case (Cons x xs)
  from Cons.prems show ?case
    by (cases rule: sync_loop_ConsE) (auto dest!: Cons.IH)
qed

lemma sync_loop_entries_subset:
  assumes "sync_loop be m xs \<lparr>moved = [], skipped = [], errors = []\<rparr> s = (res, s')"
  shows "fst ` set (moved res) \<union> fst ` set (skipped res) \<union> fst ` set (errors res) \<subseteq> set xs"
proof
  fix a
  assume a: "a \<in> fst ` set (moved res) \<union> fst ` set (skipped res) \<union> fst ` set (errors res)"
  show "a \<in> set xs"
  proof (rule ccontr)
    assume "a \<notin> set xs"
    then have "count_list xs a = 0" by (simp add: count_list_0_iff)
    with sync_loop_count [OF assms, of a]
    have "count_list (map fst (moved res)) a = 0" "count_list (map fst (skipped res)) a = 0"
      "count_list (map fst (errors res)) a = 0" by simp_all
    with a show False by (auto simp: count_list_0_iff)
  qed
qed

lemma sync_loop_skipped:
  "sync_loop be m xs res s = (res', s') \<Longrightarrow>
     skipped res' = skipped res
        @ map (\<lambda>a. (a, ''No pending image found'')) (filter (\<lambda>a. pendingMap_get m a = None) xs)"
proof (induction xs arbitrary: res s)
  case Nil
  then show ?case by simp
next
  case (Cons x xs)
  from Cons.prems show ?case
    by (cases rule: sync_loop_ConsE) (auto dest!: Cons.IH)
qed

lemma sync_loop_all_skipped:
  "\<forall>a \<in> set xs. pendingMap_get m a = None \<Longrightarrow>
     sync_loop be m xs res s
       = (res\<lparr>skipped := skipped res @ map (\<lambda>a. (a, ''No pending image found'')) xs\<rparr>, s)"
  by (induction xs arbitrary: res) simp_all

lemma sync_loop_moved:
  "sync_loop be m xs res s = (res', s') \<Longrightarrow> entry \<in> set (moved res') \<Longrightarrow>
     entry \<in> set (moved res) \<or>
     (\<exists>a info. entry = (a, ''pending/'' @ info_fileName info, ''approved/'' @ info_fileName info)
         \<and> a \<in> set xs \<and> pendingMap_get m a = Some info)"
proof (induction xs arbitrary: res s)
  case Nil
  then show ?case by simp
next
  case (Cons x xs)
  from Cons.prems(1) show ?case
  proof (cases rule: sync_loop_ConsE)
    case skip
    from Cons.IH [OF skip(2) Cons.prems(2)] show ?thesis by auto
  next
    case (move info t)
    from Cons.IH [OF move(3) Cons.prems(2)] move(1) show ?thesis by auto
  next
    case (fail info e t)
    from Cons.IH [OF fail(3) Cons.prems(2)] show ?thesis by auto
  qed
qed

lemma sync_loop_moved_from_file:
  assumes "sync_loop be (pendingMap_of pendingFiles) xs
             \<lparr>moved = [], skipped = [], errors = []\<rparr> s = (res, s')"
    and "entry \<in> set (moved res)"
  shows "\<exists>file \<in> set pendingFiles. \<exists>address extension.
           match_name (file_name file) = Some (address, extension)
           \<and> entry = (JStr address, ''pending/'' @ file_name file, ''approved/'' @ file_name file)"
proof -
  from sync_loop_moved [OF assms] obtain a info where
    e: "entry = (a, ''pending/'' @ info_fileName info, ''approved/'' @ info_fileName info)"
    and g: "pendingMap_get (pendingMap_of pendingFiles) a = Some info" by auto
  from g obtain address where a: "a = JStr address"
    and m: "pendingMap_of pendingFiles address = Some info"
    by (cases a) simp_all
  from pendingMap_of_Some [OF m] e a show ?thesis by auto
qed

lemma sync_loop_errors:
  "sync_loop be m xs res s = (res', s') \<Longrightarrow> entry \<in> set (errors res') \<Longrightarrow>
     entry \<in> set (errors res) \<or> (\<exists>a e. entry = (a, e) \<and> a \<in> set xs \<and> pendingMap_get m a \<noteq> None)"
proof (induction xs arbitrary: res s)
  case Nil
  then show ?case by simp
next
  case (Cons x xs)
  from Cons.prems(1) show ?case
  proof (cases rule: sync_loop_ConsE)
    case skip
    from Cons.IH [OF skip(2) Cons.prems(2)] show ?thesis by auto
  next
    case (move info t)
    from Cons.IH [OF move(3) Cons.prems(2)] show ?thesis by auto
  next
    case (fail info e t)
    from Cons.IH [OF fail(3) Cons.prems(2)] fail(1) show ?thesis by auto
  qed
qed

lemma sync_loop_errors_grow:
  "sync_loop be m xs res s = (res', s') \<Longrightarrow> set (errors res) \<subseteq> set (errors res')"
proof (induction xs arbitrary: res s)
  case Nil
  then show ?case by simp
next
  case (Cons x xs)
  from Cons.prems show ?case
    by (cases rule: sync_loop_ConsE) (auto dest!: Cons.IH)
qed

lemma sync_loop_failure_recorded:
  assumes "sync_loop be m (pre @ a # rest) res0 s0 = (res, s')"
    and "sync_loop be m pre res0 s0 = (r1, t1)"
    and "pendingMap_get m a = Some info"
    and "moveFile be (''pending/'' @ info_fileName info) (''approved/'' @ info_fileName info)
           (info_fileUuid info) (info_link info) t1 = (Inl e, t2)"
  shows "(a, e) \<in> set (errors res)"
proof -
  from assms(1,2) have "sync_loop be m (a # rest) r1 t1 = (res, s')"
    by (simp add: sync_loop_append)
  with assms(3,4) have "sync_loop be m rest (r1\<lparr>errors := errors r1 @ [(a, e)]\<rparr>) t2 = (res, s')"
    by simp
  from sync_loop_errors_grow [OF this] show ?thesis by auto
qed

lemma sync_loop_matched_not_skipped:
  assumes l: "sync_loop be m xs \<lparr>moved = [], skipped = [], errors = []\<rparr> s = (res, s')"
    and x: "x \<in> set xs" and g: "pendingMap_get m x \<noteq> None"
  shows "x \<notin> fst ` set (skipped res)
         \<and> x \<in> fst ` set (moved res) \<union> fst ` set (errors res)"
proof -
  from sync_loop_skipped [OF l] g have ns: "x \<notin> fst ` set (skipped res)" by auto
  then have "count_list (map fst (skipped res)) x = 0" by (simp add: count_list_0_iff)
  moreover from x have "count_list xs x \<noteq> 0" by (simp add: count_list_0_iff)
  ultimately have "count_list (map fst (moved res)) x + count_list (map fst (errors res)) x \<noteq> 0"
    using sync_loop_count [OF l, of x] by simp
  then have "count_list (map fst (moved res)) x \<noteq> 0 \<or> count_list (map fst (errors res)) x \<noteq> 0"
    by simp
  then have "x \<in> set (map fst (moved res)) \<or> x \<in> set (map fst (errors res))"
    by (simp add: count_list_0_iff)
  with ns show ?thesis by auto
qed

lemma pendingMap_set_Some:
  "match_name (file_name file) = Some (address, extension) \<Longrightarrow>
     pendingMap_set m file
       = m(address \<mapsto> \<lparr>info_fileName = file_name file, info_fileUuid = file_uuid file,
                          info_extension = extension, info_link = file_link file\<rparr>)"
  by (simp add: pendingMap_set_def)

subsection \<open>Auxiliary facts: the sync handler\<close>

lemma sync_try_run:
  assumes "req_json request = Inr body" and "get_prop body ''addresses'' = Some (JArr xs)"
    and "xs \<noteq> []"
  shows "sync_try be request env origin s =
           (case listFilesInFolder be ''pending'' s of
              (Inl e, s1) \<Rightarrow> (Inl e, s1)
            | (Inr pendingFiles, s1) \<Rightarrow>
                (case sync_loop be (pendingMap_of pendingFiles) (take 50 xs)
                        \<lparr>moved = [], skipped = [], errors = []\<rparr> s1 of
                   (res, s') \<Rightarrow> (Inr (jsonResponse (Synced res) 200 (Some origin)), s')))"
proof -
  from assms(2) have "body \<noteq> JNull" by auto
  with assms show ?thesis by (simp add: sync_try_def)
qed

lemma sync_try_empty:
  assumes "req_json request = Inr body" and "get_prop body ''addresses'' = Some (JArr [])"
  shows "sync_try be request env origin s
           = (Inr (jsonResponse (Error ''Invalid addresses array'') 400 (Some origin)), s)"
proof -
  from assms(2) have "body \<noteq> JNull" by auto
  with assms show ?thesis by (simp add: sync_try_def)
qed

lemma handleSync_SyncedE:
  assumes "req_json request = Inr body" and "get_prop body ''addresses'' = Some (JArr xs)"
    and "handleSyncApprovedMembers be request env origin s = (Inr response, s')"
    and "resp_body response = Synced res"
  obtains pendingFiles s1 where "listFilesInFolder be ''pending'' s = (Inr pendingFiles, s1)"
    and "sync_loop be (pendingMap_of pendingFiles) (take 50 xs)
           \<lparr>moved = [], skipped = [], errors = []\<rparr> s1 = (res, s')"
    and "response = jsonResponse (Synced res) 200 (Some origin)"
proof (cases "xs = []")
  case True
  with assms show ?thesis
    by (auto simp: handleSyncApprovedMembers_def sync_try_empty resp_body_jsonResponse
             split: if_splits)
next
  case False
  from assms(3,4) have post: "req_method request = ''POST''"
    by (auto simp: handleSyncApprovedMembers_def resp_body_jsonResponse split: if_splits)
  obtain r s1 where l: "listFilesInFolder be ''pending'' s = (r, s1)"
    by (cases "listFilesInFolder be ''pending'' s")
  show ?thesis
  proof (cases r)
    case (Inl e)
    with assms False post l show ?thesis
      by (auto simp: handleSyncApprovedMembers_def sync_try_run resp_body_jsonResponse)
  next
    case (Inr pendingFiles)
    with assms False post l that [of pendingFiles s1] show ?thesis
      by (auto simp: handleSyncApprovedMembers_def sync_try_run resp_body_jsonResponse
               split: prod.splits)
  qed
qed

lemma handleSync_POST_run:
  assumes "req_method request = ''POST''" and "req_json request = Inr body"
    and "get_prop body ''addresses'' = Some (JArr xs)" and "xs \<noteq> []"
    and "listFilesInFolder be ''pending'' s = (Inr pendingFiles, s1)"
    and "sync_loop be (pendingMap_of pendingFiles) (take 50 xs)
           \<lparr>moved = [], skipped = [], errors = []\<rparr> s1 = (res, s')"
  shows "handleSyncApprovedMembers be request env origin s
           = (Inr (jsonResponse (Synced res) 200 (Some origin)), s')"
  using assms(1,5,6)
  by (simp add: handleSyncApprovedMembers_def sync_try_run [OF assms(2,3,4)])

lemma handleSync_never_rejects:
  "\<exists>response. fst (handleSyncApprovedMembers be request env origin s) = Inr response"
  by (auto simp: handleSyncApprovedMembers_def split: prod.splits sum.splits)

subsection \<open>Auxiliary facts: concrete runs\<close>

lemmas run_defs =
  handleSyncApprovedMembers_def sync_try_def post_def listFilesInFolder_def call_def
  bucket_def accepted_def refused_def stored_def in_folder_def listed_of_def or_else_def
  pendingMap_of_def pendingMap_set_def match_name_def line_terminator_def moveFile_def
  apillonInitiateUpload_def apillonCompleteUpload_def deleteApillonFile_def
  data_sessionUuid_def data_files_0_def data_files_0_url_def Let_def

lemma allowedOrigins_env0:
  "allowedOrigins env0 = [''https://kappasigmamu.github.io'', ''http://localhost:3000'']"
  by (simp add: allowedOrigins_def env0_def trim_def white_space_def)

lemma take_50_ids51: "take 50 ids51 = map fst skipped50"
  by (simp add: ids51_def skipped50_def)

lemma listFilesInFolder_empty_bucket:
  "listFilesInFolder (bucket c) folder ([], log) = (Inr [], ([], log @ [GetFiles (Inr (accepted []))]))"
  by (simp add: listFilesInFolder_def call_def bucket_def accepted_def)

subsection \<open>Batch sync: the three result lists\<close>

text \<open>
  C1, as amended. Whenever the sync handler returns a sync result for the submitted
  array \<open>xs\<close>, every value \<open>a\<close> occurs in the three lists \<open>moved\<close>, \<open>skipped\<close> and
  \<open>errors\<close> together exactly as often as it occurs among the first 50 elements of \<open>xs\<close>.
  Hence an address that occurs once among the first 50 is in exactly one of the three
  lists, and an address that does not occur among the first 50 is in none.
\<close>

theorem sync_partition:
  assumes "req_json request = Inr body" and "get_prop body ''addresses'' = Some (JArr xs)"
    and "handleSyncApprovedMembers be request env origin s = (Inr response, s')"
    and "resp_body response = Synced res"
  shows "count_list (map fst (moved res)) a + count_list (map fst (skipped res)) a
           + count_list (map fst (errors res)) a = count_list (take 50 xs) a
         \<and> (count_list (take 50 xs) a = 1 \<longrightarrow>
               (a \<in> fst ` set (moved res) \<and> a \<notin> fst ` set (skipped res) \<and> a \<notin> fst ` set (errors res))
             \<or> (a \<notin> fst ` set (moved res) \<and> a \<in> fst ` set (skipped res) \<and> a \<notin> fst ` set (errors res))
             \<or> (a \<notin> fst ` set (moved res) \<and> a \<notin> fst ` set (skipped res) \<and> a \<in> fst ` set (errors res)))
         \<and> (a \<notin> set (take 50 xs) \<longrightarrow>
               a \<notin> fst ` set (moved res) \<and> a \<notin> fst ` set (skipped res) \<and> a \<notin> fst ` set (errors res))"
proof -
  from assms obtain pendingFiles s1 where
    "sync_loop be (pendingMap_of pendingFiles) (take 50 xs)
       \<lparr>moved = [], skipped = [], errors = []\<rparr> s1 = (res, s')"
    by (rule handleSync_SyncedE)
  from sync_loop_count [OF this, of a]
  have c: "count_list (map fst (moved res)) a + count_list (map fst (skipped res)) a
           + count_list (map fst (errors res)) a = count_list (take 50 xs) a"
    by simp
  have z: "\<And>ys. count_list ys a = 0 \<longleftrightarrow> a \<notin> set ys"
    by (simp add: count_list_0_iff)
  have one: "count_list (take 50 xs) a = 1 \<longrightarrow>
               (a \<in> fst ` set (moved res) \<and> a \<notin> fst ` set (skipped res) \<and> a \<notin> fst ` set (errors res))
             \<or> (a \<notin> fst ` set (moved res) \<and> a \<in> fst ` set (skipped res) \<and> a \<notin> fst ` set (errors res))
             \<or> (a \<notin> fst ` set (moved res) \<and> a \<notin> fst ` set (skipped res) \<and> a \<in> fst ` set (errors res))"
  proof
    assume "count_list (take 50 xs) a = 1"
    with c have "count_list (map fst (moved res)) a + count_list (map fst (skipped res)) a
           + count_list (map fst (errors res)) a = 1" by simp
    then consider
        "count_list (map fst (moved res)) a = 1" "count_list (map fst (skipped res)) a = 0"
          "count_list (map fst (errors res)) a = 0"
      | "count_list (map fst (moved res)) a = 0" "count_list (map fst (skipped res)) a = 1"
          "count_list (map fst (errors res)) a = 0"
      | "count_list (map fst (moved res)) a = 0" "count_list (map fst (skipped res)) a = 0"
          "count_list (map fst (errors res)) a = 1"
      by linarith
    then show "(a \<in> fst ` set (moved res) \<and> a \<notin> fst ` set (skipped res) \<and> a \<notin> fst ` set (errors res))
             \<or> (a \<notin> fst ` set (moved res) \<and> a \<in> fst ` set (skipped res) \<and> a \<notin> fst ` set (errors res))
             \<or> (a \<notin> fst ` set (moved res) \<and> a \<notin> fst ` set (skipped res) \<and> a \<in> fst ` set (errors res))"
    proof cases
      case 1
      from 1(1) have "count_list (map fst (moved res)) a \<noteq> 0" by simp
      with 1(2,3) show ?thesis by (simp add: z)
    next
      case 2
      from 2(2) have "count_list (map fst (skipped res)) a \<noteq> 0" by simp
      with 2(1,3) show ?thesis by (simp add: z)
    next
      case 3
      from 3(3) have "count_list (map fst (errors res)) a \<noteq> 0" by simp
      with 3(1,2) show ?thesis by (simp add: z)
    qed
  qed
  have none: "a \<notin> set (take 50 xs) \<longrightarrow>
               a \<notin> fst ` set (moved res) \<and> a \<notin> fst ` set (skipped res) \<and> a \<notin> fst ` set (errors res)"
  proof
    assume "a \<notin> set (take 50 xs)"
    then have "count_list (take 50 xs) a = 0" by (simp add: z)
    with c have "count_list (map fst (moved res)) a = 0" "count_list (map fst (skipped res)) a = 0"
      "count_list (map fst (errors res)) a = 0" by simp_all
    then show "a \<notin> fst ` set (moved res) \<and> a \<notin> fst ` set (skipped res) \<and> a \<notin> fst ` set (errors res)"
      by (simp add: z)
  qed
  from c one none show ?thesis by blast
qed

theorem sync_partition_witness:
  "count_list (map fst [(JStr ''ADDR1'', ''pending/ADDR1.jpg'', ''approved/ADDR1.jpg'')]) (JStr ''ADDR1'')
     + count_list (map fst [(JStr ''ADDR2'', ''No pending image found'')]) (JStr ''ADDR1'')
     + count_list (map fst ([] :: (json \<times> string) list)) (JStr ''ADDR1'')
     = count_list (take 50 [JStr ''ADDR1'', JStr ''ADDR2'']) (JStr ''ADDR1'')"
proof -
  let ?body = "JObj [(''addresses'', JArr [JStr ''ADDR1'', JStr ''ADDR2''])]"
  let ?request = "post ''/sync-approved-members'' (Some ''http://localhost:3000'') ?body"
  let ?w = "[stored ''pending'' ''ADDR1.jpg'' ''u-1'' (Some ''https://ipfs/1'')]"
  let ?res = "\<lparr>moved = [(JStr ''ADDR1'', ''pending/ADDR1.jpg'', ''approved/ADDR1.jpg'')],
              skipped = [(JStr ''ADDR2'', ''No pending image found'')], errors = []\<rparr>"
  have a: "req_json ?request = Inr ?body" by (simp add: post_def)
  have b: "get_prop ?body ''addresses'' = Some (JArr [JStr ''ADDR1'', JStr ''ADDR2''])" by simp
  have "fst (handleSyncApprovedMembers (bucket True) ?request env0 ''http://localhost:3000'' (?w, []))
          = Inr (jsonResponse (Synced ?res) 200 (Some ''http://localhost:3000''))"
    by (simp add: run_defs)
  then obtain s' where c: "handleSyncApprovedMembers (bucket True) ?request env0
       ''http://localhost:3000'' (?w, [])
     = (Inr (jsonResponse (Synced ?res) 200 (Some ''http://localhost:3000'')), s')"
    by (cases "handleSyncApprovedMembers (bucket True) ?request env0 ''http://localhost:3000'' (?w, [])")
       simp
  have d: "resp_body (jsonResponse (Synced ?res) 200 (Some ''http://localhost:3000'')) = Synced ?res"
    by (simp add: jsonResponse_def)
  from sync_partition [OF a b c d, of "JStr ''ADDR1''"] show ?thesis by simp
qed

text \<open>C1, as stated, fails beyond the first 50 addresses: of 51 distinct addresses, none
  with a pending file, the first 50 are skipped and the last one is in no list.\<close>

theorem sync_drops_51st_address:
  "fst (handleSyncApprovedMembers (bucket True)
          (post ''/sync-approved-members'' (Some ''http://localhost:3000'')
             (JObj [(''addresses'', JArr ids51)]))
          env0 ''http://localhost:3000'' ([], []))
     = Inr (jsonResponse (Synced \<lparr>moved = [], skipped = skipped50, errors = []\<rparr>) 200
              (Some ''http://localhost:3000''))
   \<and> JStr ''51'' \<in> set ids51 \<and> JStr ''51'' \<notin> fst ` set skipped50"
proof -
  let ?request = "post ''/sync-approved-members'' (Some ''http://localhost:3000'')
             (JObj [(''addresses'', JArr ids51)])"
  have a: "req_json ?request = Inr (JObj [(''addresses'', JArr ids51)])"
    and p: "req_method ?request = ''POST''" by (simp_all add: post_def)
  have b: "get_prop (JObj [(''addresses'', JArr ids51)]) ''addresses'' = Some (JArr ids51)" by simp
  have c: "ids51 \<noteq> []" by (simp add: ids51_def)
  have d: "map (\<lambda>a. (a, ''No pending image found'')) (take 50 ids51) = skipped50"
    by (simp add: ids51_def skipped50_def)
  have "fst (handleSyncApprovedMembers (bucket True) ?request env0 ''http://localhost:3000'' ([], []))
     = Inr (jsonResponse (Synced \<lparr>moved = [], skipped = skipped50, errors = []\<rparr>) 200
              (Some ''http://localhost:3000''))"
    by (simp add: handleSyncApprovedMembers_def p sync_try_run [OF a b c]
          listFilesInFolder_empty_bucket pendingMap_of_def sync_loop_all_skipped
          pendingMap_get_empty d)
  moreover have "JStr ''51'' \<in> set ids51" by (simp add: ids51_def)
  moreover have "JStr ''51'' \<notin> fst ` set skipped50" by (simp add: skipped50_def)
  ultimately show ?thesis by simp
qed

subsection \<open>Move engine: deletion after completion\<close>

text \<open>
  C2. The claim fails on this run: the backend answers the completion call with HTTP 200
  and \<^verbatim>\<open>data.success = false\<close>; \<^verbatim>\<open>moveFile\<close> discards that answer, deletes the
  original and succeeds, so the pending object is gone from the bucket. For the same
  answer \<^verbatim>\<open>handleCompleteUpload\<close> reports \<open>Failed to complete upload session\<close>.
  (The order of the calls and the HTTP-level checks are as \<open>moveFile_log\<close> states, and an
  absent link fails before any call, \<open>moveFile_no_link\<close>.)
\<close>

theorem moveFile_ignores_completion_result:
  "moveFile (bucket False) ''pending/ADDR1.jpg'' ''approved/ADDR1.jpg'' ''u-1''
     (Some ''https://ipfs/1'')
     ([stored ''pending'' ''ADDR1.jpg'' ''u-1'' (Some ''https://ipfs/1'')], [])
   = (Inr (),
      ([],
       [GetLink ''https://ipfs/1'' (Inr (accepted ())),
        PostUpload (JStr ''ADDR1.jpg'') (JStr ''image/jpeg'') (JStr ''approved'')
          (Inr (accepted \<lparr>upload_data = Some \<lparr>sessionUuid = Some ''s-1'',
                   files = Some [\<lparr>url = Some ''https://upload/1'', upload_fileUuid = ''f-1''\<rparr>]\<rparr>\<rparr>)),
        PutUrl ''https://upload/1'' ''bytes'' ''image/jpeg'' (Inr (accepted ())),
        PostUploadEnd (JStr ''s-1'')
          (Inr (accepted \<lparr>complete_data = Some \<lparr>success = False\<rparr>\<rparr>)),
        DeleteFile ''u-1'' (Inr (accepted ()))]))
   \<and> fst (handleCompleteUpload (bucket False)
            (post ''/complete'' (Some ''http://localhost:3000'')
               (JObj [(''sessionUuid'', JStr ''s-1'')]))
            env0 ''http://localhost:3000'' ([], []))
     = Inr (jsonResponse (Error ''Failed to complete upload session'') 500
              (Some ''http://localhost:3000''))"
  by (simp add: run_defs handleCompleteUpload_def data_success_def)

theorem moveFile_ignores_completion_result_witness:
  "fst (moveFile (bucket False) ''pending/ADDR1.jpg'' ''approved/ADDR1.jpg'' ''u-1''
          (Some ''https://ipfs/1'')
          ([stored ''pending'' ''ADDR1.jpg'' ''u-1'' (Some ''https://ipfs/1'')], [])) = Inr ()
   \<and> filter is_delete
         (snd (snd (moveFile (bucket False) ''pending/ADDR1.jpg'' ''approved/ADDR1.jpg'' ''u-1''
                      (Some ''https://ipfs/1'')
                      ([stored ''pending'' ''ADDR1.jpg'' ''u-1'' (Some ''https://ipfs/1'')], []))))
       = [DeleteFile ''u-1'' (Inr (accepted ()))]"
  using moveFile_ignores_completion_result by (simp add: is_delete_def)

subsection \<open>Batch sync: the limit of 50 addresses\<close>

text \<open>
  C3. The sync handler gives the same response, the same backend state and the same
  list of backend calls for an array of addresses as for its first 50 elements: what
  follows them triggers no call and no error. A sync result holds at most 50 entries,
  each for one of the first 50 addresses.
\<close>

theorem sync_truncates_to_50:
  assumes "req_json request = Inr body" and "get_prop body ''addresses'' = Some (JArr xs)"
  shows "handleSyncApprovedMembers be request env origin s
           = handleSyncApprovedMembers be
               (request\<lparr>req_json := Inr (JObj [(''addresses'', JArr (take 50 xs))])\<rparr>) env origin s
         \<and> (\<forall>response res.
               fst (handleSyncApprovedMembers be request env origin s) = Inr response
               \<longrightarrow> resp_body response = Synced res
               \<longrightarrow> length (moved res) + length (skipped res) + length (errors res) \<le> 50
                   \<and> fst ` set (moved res) \<union> fst ` set (skipped res) \<union> fst ` set (errors res)
                       \<subseteq> set (take 50 xs))"
proof
  let ?request' = "request\<lparr>req_json := Inr (JObj [(''addresses'', JArr (take 50 xs))])\<rparr>"
  have a': "req_json ?request' = Inr (JObj [(''addresses'', JArr (take 50 xs))])" by simp
  have b': "get_prop (JObj [(''addresses'', JArr (take 50 xs))]) ''addresses''
              = Some (JArr (take 50 xs))" by simp
  have "sync_try be request env origin s = sync_try be ?request' env origin s"
  proof (cases "xs = []")
    case True
    with assms a' b' show ?thesis by (simp add: sync_try_empty)
  next
    case False
    then have ne: "take 50 xs \<noteq> []" by simp
    have tt: "take 50 (take 50 xs) = take 50 xs" by simp
    show ?thesis
      by (simp only: sync_try_run [OF assms False] sync_try_run [OF a' b' ne] tt)
  qed
  then show "handleSyncApprovedMembers be request env origin s
           = handleSyncApprovedMembers be ?request' env origin s"
    by (simp add: handleSyncApprovedMembers_def)
next
  show "\<forall>response res.
               fst (handleSyncApprovedMembers be request env origin s) = Inr response
               \<longrightarrow> resp_body response = Synced res
               \<longrightarrow> length (moved res) + length (skipped res) + length (errors res) \<le> 50
                   \<and> fst ` set (moved res) \<union> fst ` set (skipped res) \<union> fst ` set (errors res)
                       \<subseteq> set (take 50 xs)"
  proof (intro allI impI)
    fix response res
    assume r: "fst (handleSyncApprovedMembers be request env origin s) = Inr response"
      and b: "resp_body response = Synced res"
    from r obtain s' where h: "handleSyncApprovedMembers be request env origin s = (Inr response, s')"
      by (cases "handleSyncApprovedMembers be request env origin s") simp
    from assms h b obtain pendingFiles s1 where
      l: "sync_loop be (pendingMap_of pendingFiles) (take 50 xs)
            \<lparr>moved = [], skipped = [], errors = []\<rparr> s1 = (res, s')"
      by (rule handleSync_SyncedE)
    from sync_loop_length [OF l]
    have "length (moved res) + length (skipped res) + length (errors res) \<le> 50" by simp
    with sync_loop_entries_subset [OF l]
    show "length (moved res) + length (skipped res) + length (errors res) \<le> 50
                   \<and> fst ` set (moved res) \<union> fst ` set (skipped res) \<union> fst ` set (errors res)
                       \<subseteq> set (take 50 xs)" by simp
  qed
qed

theorem sync_truncates_to_50_witness:
  "handleSyncApprovedMembers (bucket True)
     (post ''/sync-approved-members'' (Some ''http://localhost:3000'')
        (JObj [(''addresses'', JArr ids51)]))
     env0 ''http://localhost:3000'' ([], [])
   = handleSyncApprovedMembers (bucket True)
       ((post ''/sync-approved-members'' (Some ''http://localhost:3000'')
           (JObj [(''addresses'', JArr ids51)]))
        \<lparr>req_json := Inr (JObj [(''addresses'', JArr (take 50 ids51))])\<rparr>)
       env0 ''http://localhost:3000'' ([], [])"
proof -
  let ?body = "JObj [(''addresses'', JArr ids51)]"
  let ?request = "post ''/sync-approved-members'' (Some ''http://localhost:3000'') ?body"
  have a: "req_json ?request = Inr ?body" by (simp add: post_def)
  have b: "get_prop ?body ''addresses'' = Some (JArr ids51)" by simp
  from sync_truncates_to_50 [OF a b, of "bucket True" env0 "''http://localhost:3000''" "([], [])"]
  show ?thesis by (rule conjunct1)
qed

subsection \<open>Origin guard\<close>

text \<open>
  C4. A request whose \<^verbatim>\<open>Origin\<close> header is absent (or empty) or is not one of the allowed
  origins is answered with status 403 on every path and for every method, the
  \<^verbatim>\<open>OPTIONS\<close> preflight included; the backend state and the list of backend calls are
  returned unchanged, so no backend call was made.
\<close>

theorem unauthorized_origin_403:
  assumes "req_origin request = None \<or> req_origin request = Some []
           \<or> (\<exists>origin. req_origin request = Some origin \<and> origin \<notin> set (allowedOrigins env))"
  shows "\<exists>response. fetch be request env s = (Inr response, s) \<and> status response = 403
           \<and> response = (if req_method request = ''OPTIONS''
                           then \<lparr>status = 403, headers = [], resp_body = NoBody\<rparr>
                           else jsonResponse (Error ''Unauthorized origin'') 403 None)"
  using assms by (auto simp: fetch_def handleCORS_def jsonResponse_def Let_def)

theorem unauthorized_origin_403_witness:
  "fetch (bucket True) (post ''/initiate'' (Some ''https://evil.example'') (JObj [])) env0 ([], [])
     = (Inr (jsonResponse (Error ''Unauthorized origin'') 403 None), ([], []))
   \<and> fetch (bucket True) ((post ''/initiate'' None JNull)\<lparr>req_method := ''OPTIONS''\<rparr>) env0 ([], [])
     = (Inr \<lparr>status = 403, headers = [], resp_body = NoBody\<rparr>, ([], []))"
proof -
  let ?r1 = "post ''/initiate'' (Some ''https://evil.example'') (JObj [])"
  let ?r2 = "(post ''/initiate'' None JNull)\<lparr>req_method := ''OPTIONS''\<rparr>"
  have a: "req_origin ?r1 = None \<or> req_origin ?r1 = Some []
        \<or> (\<exists>origin. req_origin ?r1 = Some origin \<and> origin \<notin> set (allowedOrigins env0))"
    by (simp add: post_def allowedOrigins_env0)
  have b: "req_origin ?r2 = None \<or> req_origin ?r2 = Some []
        \<or> (\<exists>origin. req_origin ?r2 = Some origin \<and> origin \<notin> set (allowedOrigins env0))"
    by (simp add: post_def)
  from unauthorized_origin_403 [OF a, of "bucket True" "([], [])"]
       unauthorized_origin_403 [OF b, of "bucket True" "([], [])"]
  show ?thesis by (auto simp: post_def)
qed

subsection \<open>Batch sync: failures of single addresses\<close>

text \<open>
  C5, as amended. For a \<^verbatim>\<open>POST\<close> with a non-empty array of addresses, once the listing
  of the pending folder has succeeded, the sync handler answers with status 200 and a
  sync result, whatever the backend does while the addresses are processed. The result
  holds one entry for each of the first 50 addresses, so no failure ends the loop early;
  and when \<^verbatim>\<open>moveFile\<close> fails with message \<open>e\<close> for the address \<open>a\<close>, in the state
  reached after the addresses before it, the entry \<open>(a, e)\<close> is in \<open>errors\<close>.
\<close>

theorem sync_isolates_item_failures:
  assumes "req_method request = ''POST''" and "req_json request = Inr body"
    and "get_prop body ''addresses'' = Some (JArr xs)" and "xs \<noteq> []"
    and "listFilesInFolder be ''pending'' s = (Inr pendingFiles, s1)"
  shows "\<exists>res s'.
           handleSyncApprovedMembers be request env origin s
             = (Inr (jsonResponse (Synced res) 200 (Some origin)), s')
           \<and> length (moved res) + length (skipped res) + length (errors res)
               = length (take 50 xs)
           \<and> (\<forall>pre a rest r1 t1 info e t2.
                 take 50 xs = pre @ a # rest
                 \<longrightarrow> sync_loop be (pendingMap_of pendingFiles) pre
                       \<lparr>moved = [], skipped = [], errors = []\<rparr> s1 = (r1, t1)
                 \<longrightarrow> pendingMap_get (pendingMap_of pendingFiles) a = Some info
                 \<longrightarrow> moveFile be (''pending/'' @ info_fileName info)
                       (''approved/'' @ info_fileName info)
                       (info_fileUuid info) (info_link info) t1 = (Inl e, t2)
                 \<longrightarrow> (a, e) \<in> set (errors res))"
proof -
  obtain res s' where l: "sync_loop be (pendingMap_of pendingFiles) (take 50 xs)
           \<lparr>moved = [], skipped = [], errors = []\<rparr> s1 = (res, s')"
    by (cases "sync_loop be (pendingMap_of pendingFiles) (take 50 xs)
           \<lparr>moved = [], skipped = [], errors = []\<rparr> s1")
  from handleSync_POST_run [OF assms l]
  have h: "handleSyncApprovedMembers be request env origin s
           = (Inr (jsonResponse (Synced res) 200 (Some origin)), s')" .
  from sync_loop_length [OF l]
  have n: "length (moved res) + length (skipped res) + length (errors res) = length (take 50 xs)"
    by simp
  have f: "\<forall>pre a rest r1 t1 info e t2.
                 take 50 xs = pre @ a # rest
                 \<longrightarrow> sync_loop be (pendingMap_of pendingFiles) pre
                       \<lparr>moved = [], skipped = [], errors = []\<rparr> s1 = (r1, t1)
                 \<longrightarrow> pendingMap_get (pendingMap_of pendingFiles) a = Some info
                 \<longrightarrow> moveFile be (''pending/'' @ info_fileName info)
                       (''approved/'' @ info_fileName info)
                       (info_fileUuid info) (info_link info) t1 = (Inl e, t2)
                 \<longrightarrow> (a, e) \<in> set (errors res)"
  proof (intro allI impI)
    fix pre a rest r1 t1 info e t2
    assume "take 50 xs = pre @ a # rest"
      and "sync_loop be (pendingMap_of pendingFiles) pre
             \<lparr>moved = [], skipped = [], errors = []\<rparr> s1 = (r1, t1)"
      and "pendingMap_get (pendingMap_of pendingFiles) a = Some info"
      and "moveFile be (''pending/'' @ info_fileName info) (''approved/'' @ info_fileName info)
             (info_fileUuid info) (info_link info) t1 = (Inl e, t2)"
    with l show "(a, e) \<in> set (errors res)"
      using sync_loop_failure_recorded [of be "pendingMap_of pendingFiles" pre a rest] by simp
  qed
  from h n f show ?thesis by blast
qed

theorem sync_isolates_item_failures_witness:
  "\<exists>res s'.
     handleSyncApprovedMembers (bucket True)
       (post ''/sync-approved-members'' (Some ''http://localhost:3000'')
          (JObj [(''addresses'', JArr [JStr ''ADDR3'', JStr ''ADDR1'', JStr ''ADDR2''])]))
       env0 ''http://localhost:3000''
       ([stored ''pending'' ''ADDR1.jpg'' ''u-1'' (Some ''https://ipfs/1''),
         stored ''pending'' ''ADDR3.jpg'' ''u-3'' None], [])
     = (Inr (jsonResponse (Synced res) 200 (Some ''http://localhost:3000'')), s')
     \<and> length (moved res) + length (skipped res) + length (errors res) = 3
     \<and> (JStr ''ADDR3'', ''File link is required to download file'') \<in> set (errors res)"
proof -
  let ?xs = "[JStr ''ADDR3'', JStr ''ADDR1'', JStr ''ADDR2'']"
  let ?body = "JObj [(''addresses'', JArr ?xs)]"
  let ?request = "post ''/sync-approved-members'' (Some ''http://localhost:3000'') ?body"
  let ?w = "[stored ''pending'' ''ADDR1.jpg'' ''u-1'' (Some ''https://ipfs/1''),
             stored ''pending'' ''ADDR3.jpg'' ''u-3'' None]"
  let ?fs = "[\<lparr>file_name = ''ADDR1.jpg'', file_uuid = ''u-1'',
                  file_link = Some ''https://ipfs/1'', file_cid = None\<rparr>,
                 \<lparr>file_name = ''ADDR3.jpg'', file_uuid = ''u-3'',
                  file_link = None, file_cid = None\<rparr>]"
  let ?s1 = "(?w, [GetFiles (Inr (accepted ?w))])"
  let ?info = "\<lparr>info_fileName = ''ADDR3.jpg'', info_fileUuid = ''u-3'',
                 info_extension = ''jpg'', info_link = None\<rparr>"
  let ?res0 = "\<lparr>moved = [], skipped = [], errors = []\<rparr>"
  have a: "req_method ?request = ''POST''" by (simp add: post_def)
  have b: "req_json ?request = Inr ?body" by (simp add: post_def)
  have c: "get_prop ?body ''addresses'' = Some (JArr ?xs)" by simp
  have d: "?xs \<noteq> []" by simp
  have e: "listFilesInFolder (bucket True) ''pending'' (?w, []) = (Inr ?fs, ?s1)"
    by (simp add: run_defs)
  have p1: "take 50 ?xs = [] @ JStr ''ADDR3'' # [JStr ''ADDR1'', JStr ''ADDR2'']" by simp
  have p2: "sync_loop (bucket True) (pendingMap_of ?fs) [] ?res0 ?s1 = (?res0, ?s1)" by simp
  have p3: "pendingMap_get (pendingMap_of ?fs) (JStr ''ADDR3'') = Some ?info"
    by (simp add: pendingMap_of_def pendingMap_set_def match_name_def line_terminator_def)
  have p4: "moveFile (bucket True) (''pending/'' @ info_fileName ?info)
              (''approved/'' @ info_fileName ?info) (info_fileUuid ?info) (info_link ?info) ?s1
            = (Inl ''File link is required to download file'', ?s1)"
    by (simp add: moveFile_no_link)
  from sync_isolates_item_failures [OF a b c d e, of env0 "''http://localhost:3000''"]
  obtain res s' where
    h: "handleSyncApprovedMembers (bucket True) ?request env0 ''http://localhost:3000'' (?w, [])
          = (Inr (jsonResponse (Synced res) 200 (Some ''http://localhost:3000'')), s')"
    and n: "length (moved res) + length (skipped res) + length (errors res) = length (take 50 ?xs)"
    and f: "\<forall>pre a rest r1 t1 info e t2.
                 take 50 ?xs = pre @ a # rest
                 \<longrightarrow> sync_loop (bucket True) (pendingMap_of ?fs) pre ?res0 ?s1 = (r1, t1)
                 \<longrightarrow> pendingMap_get (pendingMap_of ?fs) a = Some info
                 \<longrightarrow> moveFile (bucket True) (''pending/'' @ info_fileName info)
                       (''approved/'' @ info_fileName info)
                       (info_fileUuid info) (info_link info) t1 = (Inl e, t2)
                 \<longrightarrow> (a, e) \<in> set (errors res)"
    by blast
  from f p1 p2 p3 p4
  have "(JStr ''ADDR3'', ''File link is required to download file'') \<in> set (errors res)"
    by blast
  moreover from n have "length (moved res) + length (skipped res) + length (errors res) = 3"
    by simp
  ultimately show ?thesis using h by blast
qed

text \<open>C5, as stated, fails for the empty list of addresses, which is answered with
  status 400 and no sync result.\<close>

theorem sync_empty_addresses_400:
  "handleSyncApprovedMembers (bucket True)
     (post ''/sync-approved-members'' (Some ''http://localhost:3000'')
        (JObj [(''addresses'', JArr [])]))
     env0 ''http://localhost:3000'' ([], [])
   = (Inr (jsonResponse (Error ''Invalid addresses array'') 400 (Some ''http://localhost:3000'')),
      ([], []))"
  by (simp add: handleSyncApprovedMembers_def sync_try_def post_def)

subsection \<open>Upload session manager: validation\<close>

text \<open>
  C6, as amended. For a request body that parsed to a non-null JSON value,
  \<^verbatim>\<open>handleInitiateUpload\<close> answers with status 400 exactly when \<^verbatim>\<open>fileName\<close>,
  \<^verbatim>\<open>contentType\<close> or \<^verbatim>\<open>directoryPath\<close> is missing or falsy, or \<^verbatim>\<open>directoryPath\<close> is
  neither the string \<open>pending\<close> nor the string \<open>approved\<close>. The recognised folders of this
  endpoint are these two.
\<close>

theorem initiate_validation:
  assumes "req_json request = Inr body" and "body \<noteq> JNull"
  shows "(\<exists>response s'. handleInitiateUpload be request env origin s = (Inr response, s')
                          \<and> status response = 400)
         \<longleftrightarrow> (\<not> truthy (get_prop body ''fileName'')
              \<or> \<not> truthy (get_prop body ''contentType'')
              \<or> \<not> truthy (get_prop body ''directoryPath'')
              \<or> (get_prop body ''directoryPath'' \<noteq> Some (JStr ''pending'')
                  \<and> get_prop body ''directoryPath'' \<noteq> Some (JStr ''approved'')))"
  using assms
  by (auto simp: handleInitiateUpload_def jsonResponse_def split: sum.splits prod.splits)

theorem initiate_validation_witness:
  "\<not> (\<exists>response s'.
         handleInitiateUpload (bucket True)
           (post ''/initiate'' (Some ''http://localhost:3000'')
              (JObj [(''fileName'', JStr ''ADDR1.jpg''), (''contentType'', JStr ''image/jpeg''),
                     (''directoryPath'', JStr ''pending'')]))
           env0 ''http://localhost:3000'' ([], []) = (Inr response, s')
         \<and> status response = 400)"
proof -
  let ?body = "JObj [(''fileName'', JStr ''ADDR1.jpg''), (''contentType'', JStr ''image/jpeg''),
                     (''directoryPath'', JStr ''pending'')]"
  let ?request = "post ''/initiate'' (Some ''http://localhost:3000'') ?body"
  have a: "req_json ?request = Inr ?body" by (simp add: post_def)
  have b: "?body \<noteq> JNull" by simp
  from initiate_validation [OF a b, of "bucket True" env0 "''http://localhost:3000''" "([], [])"]
  show ?thesis by simp
qed

text \<open>C6, as stated, fails for the folder \<open>rejected\<close>: with all three fields present the
  answer is the 400 response \<open>Invalid directoryPath\<close>.\<close>

theorem initiate_rejected_folder_400:
  "fst (handleInitiateUpload (bucket True)
          (post ''/initiate'' (Some ''http://localhost:3000'')
             (JObj [(''fileName'', JStr ''ADDR1.jpg''), (''contentType'', JStr ''image/jpeg''),
                    (''directoryPath'', JStr ''rejected'')]))
          env0 ''http://localhost:3000'' ([], []))
   = Inr (jsonResponse (Error ''Invalid directoryPath'') 400 (Some ''http://localhost:3000''))"
  by (simp add: handleInitiateUpload_def post_def)

subsection \<open>Batch sync: addresses without a pending file\<close>

text \<open>
  C7, as amended. For a \<^verbatim>\<open>POST\<close> whose pending listing succeeded, every address among
  the first 50 for which the listing holds no file named address, dot, extension (as
  \<^verbatim>\<open>match_name\<close> splits names) is recorded in \<open>skipped\<close> with the reason
  \<open>No pending image found\<close>, and in neither \<open>moved\<close> nor \<open>errors\<close>. This covers an
  address whose file has already been moved out of the pending folder.
\<close>

theorem sync_skips_unmatched:
  assumes "req_method request = ''POST''" and "req_json request = Inr body"
    and "get_prop body ''addresses'' = Some (JArr xs)"
    and "listFilesInFolder be ''pending'' s = (Inr pendingFiles, s1)"
    and "a \<in> set (take 50 xs)"
    and "\<forall>file \<in> set pendingFiles. \<forall>address extension.
           match_name (file_name file) = Some (address, extension) \<longrightarrow> a \<noteq> JStr address"
  shows "\<exists>res s'.
           handleSyncApprovedMembers be request env origin s
             = (Inr (jsonResponse (Synced res) 200 (Some origin)), s')
           \<and> (a, ''No pending image found'') \<in> set (skipped res)
           \<and> a \<notin> fst ` set (moved res) \<and> a \<notin> fst ` set (errors res)"
proof -
  from assms(5) have ne: "xs \<noteq> []" by auto
  obtain res s' where l: "sync_loop be (pendingMap_of pendingFiles) (take 50 xs)
           \<lparr>moved = [], skipped = [], errors = []\<rparr> s1 = (res, s')"
    by (cases "sync_loop be (pendingMap_of pendingFiles) (take 50 xs)
           \<lparr>moved = [], skipped = [], errors = []\<rparr> s1")
  from handleSync_POST_run [OF assms(1,2,3) ne assms(4) l]
  have h: "handleSyncApprovedMembers be request env origin s
           = (Inr (jsonResponse (Synced res) 200 (Some origin)), s')" .
  have none: "pendingMap_get (pendingMap_of pendingFiles) a = None"
  proof (cases a)
    case (JStr address)
    with assms(6) show ?thesis by (auto simp: pendingMap_of_None_iff)
  qed simp_all
  from sync_loop_skipped [OF l] none assms(5)
  have sk: "(a, ''No pending image found'') \<in> set (skipped res)" by simp
  have mv: "a \<notin> fst ` set (moved res)"
  proof
    assume "a \<in> fst ` set (moved res)"
    then obtain entry where e: "entry \<in> set (moved res)" "fst entry = a" by auto
    from sync_loop_moved [OF l e(1)] obtain a' info where
      "entry = (a', ''pending/'' @ info_fileName info, ''approved/'' @ info_fileName info)"
      "pendingMap_get (pendingMap_of pendingFiles) a' = Some info" by auto
    with e(2) none show False by simp
  qed
  have er: "a \<notin> fst ` set (errors res)"
  proof
    assume "a \<in> fst ` set (errors res)"
    then obtain entry where e: "entry \<in> set (errors res)" "fst entry = a" by auto
    from sync_loop_errors [OF l e(1)] obtain a' where
      "fst entry = a'" "pendingMap_get (pendingMap_of pendingFiles) a' \<noteq> None" by auto
    with e(2) none show False by simp
  qed
  from h sk mv er show ?thesis by blast
qed

theorem sync_skips_unmatched_witness:
  "\<exists>res s'.
     handleSyncApprovedMembers (bucket True)
       (post ''/sync-approved-members'' (Some ''http://localhost:3000'')
          (JObj [(''addresses'', JArr [JStr ''ADDR1'', JStr ''ADDR2''])]))
       env0 ''http://localhost:3000''
       ([stored ''pending'' ''ADDR1.jpg'' ''u-1'' (Some ''https://ipfs/1''),
         stored ''approved'' ''ADDR2.jpg'' ''u-2'' (Some ''https://ipfs/2'')], [])
     = (Inr (jsonResponse (Synced res) 200 (Some ''http://localhost:3000'')), s')
     \<and> (JStr ''ADDR2'', ''No pending image found'') \<in> set (skipped res)
     \<and> JStr ''ADDR2'' \<notin> fst ` set (moved res) \<and> JStr ''ADDR2'' \<notin> fst ` set (errors res)"
proof -
  let ?xs = "[JStr ''ADDR1'', JStr ''ADDR2'']"
  let ?body = "JObj [(''addresses'', JArr ?xs)]"
  let ?request = "post ''/sync-approved-members'' (Some ''http://localhost:3000'') ?body"
  let ?w = "[stored ''pending'' ''ADDR1.jpg'' ''u-1'' (Some ''https://ipfs/1''),
             stored ''approved'' ''ADDR2.jpg'' ''u-2'' (Some ''https://ipfs/2'')]"
  let ?fs = "[\<lparr>file_name = ''ADDR1.jpg'', file_uuid = ''u-1'',
                file_link = Some ''https://ipfs/1'', file_cid = None\<rparr>]"
  let ?s1 = "(?w, [GetFiles (Inr (accepted ?w))])"
  have a: "req_method ?request = ''POST''" by (simp add: post_def)
  have b: "req_json ?request = Inr ?body" by (simp add: post_def)
  have c: "get_prop ?body ''addresses'' = Some (JArr ?xs)" by simp
  have d: "listFilesInFolder (bucket True) ''pending'' (?w, []) = (Inr ?fs, ?s1)"
    by (simp add: run_defs)
  have e: "JStr ''ADDR2'' \<in> set (take 50 ?xs)" by simp
  have f: "\<forall>file \<in> set ?fs. \<forall>address extension.
           match_name (file_name file) = Some (address, extension) \<longrightarrow> JStr ''ADDR2'' \<noteq> JStr address"
    by (simp add: match_name_def line_terminator_def)
  from sync_skips_unmatched [OF a b c d e f, of env0 "''http://localhost:3000''"]
  show ?thesis .
qed

text \<open>C7, as stated, fails on the text of the reason: the entry carries
  \<open>No pending image found\<close>, not \<open>no pending object\<close>.\<close>

theorem sync_skip_reason_text:
  "fst (handleSyncApprovedMembers (bucket True)
          (post ''/sync-approved-members'' (Some ''http://localhost:3000'')
             (JObj [(''addresses'', JArr [JStr ''ADDR2''])]))
          env0 ''http://localhost:3000''
          ([stored ''approved'' ''ADDR2.jpg'' ''u-2'' (Some ''https://ipfs/2'')], []))
   = Inr (jsonResponse
            (Synced \<lparr>moved = [], skipped = [(JStr ''ADDR2'', ''No pending image found'')],
                     errors = []\<rparr>)
            200 (Some ''http://localhost:3000''))
   \<and> ''No pending image found'' \<noteq> ''no pending object''"
  by (simp add: run_defs)

subsection \<open>Folder index: listing a folder\<close>

text \<open>
  C8. When the backend answers the listing request successfully with the items \<open>items\<close>,
  \<^verbatim>\<open>listFilesInFolder\<close> returns, in listing order, exactly the items whose recorded path
  equals the folder name followed by a slash; an item without a path, or with any other
  path, is left out.
\<close>

theorem listFilesInFolder_exact:
  assumes "get_files be (fst s) = (Inr response, w')" and "ok response"
    and "json_body response = Inr items"
  shows "fst (listFilesInFolder be folder s)
           = Inr (map listed_of (filter (\<lambda>file. item_path file = Some (folder @ ''/'')) items))"
proof -
  have "in_folder folder = (\<lambda>file. item_path file = Some (folder @ ''/''))"
    by (rule ext) (rule in_folder_iff)
  with assms show ?thesis
    by (simp add: listFilesInFolder_def call_def)
qed

theorem listFilesInFolder_exact_witness:
  "fst (listFilesInFolder (bucket True) ''pending''
          ([stored ''pending'' ''ADDR1.jpg'' ''u-1'' (Some ''https://ipfs/1''),
            stored ''approved'' ''ADDR2.png'' ''u-2'' None,
            (stored ''pending'' ''ADDR3.jpg'' ''u-3'' None)\<lparr>item_path := None\<rparr>,
            stored ''pending/old'' ''ADDR4.jpg'' ''u-4'' None], []))
   = Inr [\<lparr>file_name = ''ADDR1.jpg'', file_uuid = ''u-1'', file_link = Some ''https://ipfs/1'',
           file_cid = None\<rparr>]"
proof -
  let ?w = "[stored ''pending'' ''ADDR1.jpg'' ''u-1'' (Some ''https://ipfs/1''),
            stored ''approved'' ''ADDR2.png'' ''u-2'' None,
            (stored ''pending'' ''ADDR3.jpg'' ''u-3'' None)\<lparr>item_path := None\<rparr>,
            stored ''pending/old'' ''ADDR4.jpg'' ''u-4'' None]"
  have a: "get_files (bucket True) (fst (?w, [])) = (Inr (accepted ?w), ?w)"
    by (simp add: bucket_def)
  have b: "ok (accepted ?w)" by (simp add: accepted_def)
  have c: "json_body (accepted ?w) = Inr ?w" by (simp add: accepted_def)
  from listFilesInFolder_exact [OF a b c, of "''pending''"]
  show ?thesis by (simp add: stored_def listed_of_def or_else_def)
qed

subsection \<open>Batch sync: identifiers and extensions\<close>

text \<open>
  C9, as amended. A name yields the pair (address, extension) exactly when it is the
  address, a dot and the extension, the extension holds no dot (so the dot is the last one
  of the name), both parts are non-empty and the address holds no line terminator. A file
  whose name splits so is entered in the pending map under the address, the part before
  the last dot, with its name, identifier, extension and link, replacing an earlier file
  of the same address; the map is filled from the empty map, file by file, and an address
  is absent from it exactly when no listed file splits to it. A name without an extension
  (no dot at all, or nothing after the last dot) yields nothing, and a file whose name
  yields nothing leaves the map unchanged. In the loop, every \<open>moved\<close> entry stems from a
  listed file whose name splits into the entry's address and an extension, and an address
  found in the map is never skipped: it is in \<open>moved\<close> or in \<open>errors\<close>.
\<close>

theorem identifier_from_last_dot:
  "(match_name name = Some (address, extension) \<longleftrightarrow>
      name = address @ ''.'' @ extension \<and> CHR ''.'' \<notin> set extension
      \<and> address \<noteq> [] \<and> extension \<noteq> [] \<and> filter line_terminator address = [])
   \<and> (CHR ''.'' \<notin> set name \<or> (\<exists>stem. name = stem @ ''.'') \<longrightarrow> match_name name = None)
   \<and> (match_name (file_name listed_file) = None \<longrightarrow> pendingMap_set m listed_file = m)
   \<and> (match_name (file_name listed_file) = Some (address, extension) \<longrightarrow>
        pendingMap_set m listed_file
          = m(address \<mapsto> \<lparr>info_fileName = file_name listed_file, info_fileUuid = file_uuid listed_file,
                             info_extension = extension, info_link = file_link listed_file\<rparr>))
   \<and> pendingMap_of [] = Map.empty
   \<and> pendingMap_of (fs @ [listed_file]) = pendingMap_set (pendingMap_of fs) listed_file
   \<and> (pendingMap_of pendingFiles address = None \<longleftrightarrow>
        (\<forall>f \<in> set pendingFiles. \<forall>e. match_name (file_name f) \<noteq> Some (address, e)))
   \<and> pendingMap_get m (JStr address) = m address
   \<and> (sync_loop be (pendingMap_of pendingFiles) xs
          \<lparr>moved = [], skipped = [], errors = []\<rparr> s = (res, s')
        \<longrightarrow> (\<forall>entry \<in> set (moved res). \<exists>f \<in> set pendingFiles. \<exists>a e.
               match_name (file_name f) = Some (a, e)
               \<and> entry = (JStr a, ''pending/'' @ file_name f, ''approved/'' @ file_name f))
            \<and> (\<forall>x \<in> set xs. pendingMap_get (pendingMap_of pendingFiles) x \<noteq> None \<longrightarrow>
                  x \<notin> fst ` set (skipped res)
                  \<and> x \<in> fst ` set (moved res) \<union> fst ` set (errors res)))"
proof (intro conjI)
  show "match_name name = Some (address, extension) \<longleftrightarrow>
      name = address @ ''.'' @ extension \<and> CHR ''.'' \<notin> set extension
      \<and> address \<noteq> [] \<and> extension \<noteq> [] \<and> filter line_terminator address = []"
    using match_name_Some_iff [of name address extension] by simp
  show "CHR ''.'' \<notin> set name \<or> (\<exists>stem. name = stem @ ''.'') \<longrightarrow> match_name name = None"
    using match_name_no_extension [of name] by blast
  show "match_name (file_name listed_file) = None \<longrightarrow> pendingMap_set m listed_file = m"
    by (simp add: pendingMap_set_def)
  show "match_name (file_name listed_file) = Some (address, extension) \<longrightarrow>
        pendingMap_set m listed_file
          = m(address \<mapsto> \<lparr>info_fileName = file_name listed_file, info_fileUuid = file_uuid listed_file,
                             info_extension = extension, info_link = file_link listed_file\<rparr>)"
    using pendingMap_set_Some [of listed_file address extension m] by blast
  show "pendingMap_of [] = Map.empty" by (simp add: pendingMap_of_def)
  show "pendingMap_of (fs @ [listed_file]) = pendingMap_set (pendingMap_of fs) listed_file"
    by (rule pendingMap_of_snoc)
  show "pendingMap_of pendingFiles address = None \<longleftrightarrow>
        (\<forall>f \<in> set pendingFiles. \<forall>e. match_name (file_name f) \<noteq> Some (address, e))"
    by (rule pendingMap_of_None_iff)
  show "pendingMap_get m (JStr address) = m address" by simp
  show "sync_loop be (pendingMap_of pendingFiles) xs
          \<lparr>moved = [], skipped = [], errors = []\<rparr> s = (res, s')
        \<longrightarrow> (\<forall>entry \<in> set (moved res). \<exists>f \<in> set pendingFiles. \<exists>a e.
               match_name (file_name f) = Some (a, e)
               \<and> entry = (JStr a, ''pending/'' @ file_name f, ''approved/'' @ file_name f))
            \<and> (\<forall>x \<in> set xs. pendingMap_get (pendingMap_of pendingFiles) x \<noteq> None \<longrightarrow>
                  x \<notin> fst ` set (skipped res)
                  \<and> x \<in> fst ` set (moved res) \<union> fst ` set (errors res))"
    using sync_loop_moved_from_file [of be pendingFiles xs s res s']
      sync_loop_matched_not_skipped [of be "pendingMap_of pendingFiles" xs s res s']
    by blast
qed

theorem identifier_from_last_dot_witness:
  "match_name ''my.photo.jpg'' = Some (''my.photo'', ''jpg'')
   \<and> match_name ''README'' = None
   \<and> pendingMap_set Map.empty
        \<lparr>file_name = ''README'', file_uuid = ''u-2'', file_link = Some ''https://ipfs/2'',
         file_cid = None\<rparr> = Map.empty
   \<and> pendingMap_set Map.empty
        \<lparr>file_name = ''my.photo.jpg'', file_uuid = ''u-1'', file_link = Some ''https://ipfs/1'',
         file_cid = None\<rparr>
       = [''my.photo'' \<mapsto> \<lparr>info_fileName = ''my.photo.jpg'', info_fileUuid = ''u-1'',
                            info_extension = ''jpg'', info_link = Some ''https://ipfs/1''\<rparr>]
   \<and> pendingMap_of
        [\<lparr>file_name = ''my.photo.jpg'', file_uuid = ''u-1'',
          file_link = Some ''https://ipfs/1'', file_cid = None\<rparr>,
         \<lparr>file_name = ''README'', file_uuid = ''u-2'',
          file_link = Some ''https://ipfs/2'', file_cid = None\<rparr>] ''README'' = None
   \<and> (\<exists>f a e.
         f \<in> set [\<lparr>file_name = ''my.photo.jpg'', file_uuid = ''u-1'',
                      file_link = Some ''https://ipfs/1'', file_cid = None\<rparr>,
                     \<lparr>file_name = ''README'', file_uuid = ''u-2'',
                      file_link = Some ''https://ipfs/2'', file_cid = None\<rparr>]
         \<and> match_name (file_name f) = Some (a, e)
         \<and> (JStr ''my.photo'', ''pending/my.photo.jpg'', ''approved/my.photo.jpg'')
             = (JStr a, ''pending/'' @ file_name f, ''approved/'' @ file_name f))
   \<and> JStr ''my.photo'' \<notin> fst ` set [(JStr ''README'', ''No pending image found'')]
   \<and> JStr ''my.photo''
       \<in> fst ` set [(JStr ''my.photo'', ''pending/my.photo.jpg'', ''approved/my.photo.jpg'')]"
proof -
  let ?f1 = "\<lparr>file_name = ''my.photo.jpg'', file_uuid = ''u-1'',
               file_link = Some ''https://ipfs/1'', file_cid = None\<rparr>"
  let ?f2 = "\<lparr>file_name = ''README'', file_uuid = ''u-2'',
               file_link = Some ''https://ipfs/2'', file_cid = None\<rparr>"
  let ?w = "[stored ''pending'' ''my.photo.jpg'' ''u-1'' (Some ''https://ipfs/1''),
             stored ''pending'' ''README'' ''u-2'' (Some ''https://ipfs/2'')]"
  let ?xs = "[JStr ''my.photo'', JStr ''README'']"
  let ?res = "\<lparr>moved = [(JStr ''my.photo'', ''pending/my.photo.jpg'', ''approved/my.photo.jpg'')],
               skipped = [(JStr ''README'', ''No pending image found'')],
               errors = [] :: (json \<times> string) list\<rparr>"
  have run: "fst (sync_loop (bucket True) (pendingMap_of [?f1, ?f2]) ?xs
               \<lparr>moved = [], skipped = [], errors = []\<rparr> (?w, [])) = ?res"
    by (simp add: run_defs)
  then obtain s' where run': "sync_loop (bucket True) (pendingMap_of [?f1, ?f2]) ?xs
        \<lparr>moved = [], skipped = [], errors = []\<rparr> (?w, []) = (?res, s')"
    by (cases "sync_loop (bucket True) (pendingMap_of [?f1, ?f2]) ?xs
        \<lparr>moved = [], skipped = [], errors = []\<rparr> (?w, [])") simp
  have none: "match_name (file_name ?f2) = None"
    by (simp add: match_name_def)
  have some: "match_name (file_name ?f1) = Some (''my.photo'', ''jpg'')"
    by (simp add: match_name_def line_terminator_def)
  have nodot: "CHR ''.'' \<notin> set ''README'' \<or> (\<exists>stem. ''README'' = stem @ ''.'')" by simp
  have parts: "''my.photo.jpg'' = ''my.photo'' @ ''.'' @ ''jpg'' \<and> CHR ''.'' \<notin> set ''jpg''
      \<and> ''my.photo'' \<noteq> [] \<and> ''jpg'' \<noteq> [] \<and> filter line_terminator ''my.photo'' = []"
    by (simp add: line_terminator_def)
  have unmatched: "\<forall>f \<in> set [?f1, ?f2]. \<forall>e. match_name (file_name f) \<noteq> Some (''README'', e)"
    by (simp add: match_name_def line_terminator_def)
  have inlist: "JStr ''my.photo'' \<in> set ?xs" by simp
  have found: "pendingMap_get (pendingMap_of [?f1, ?f2]) (JStr ''my.photo'') \<noteq> None"
    by (simp add: pendingMap_of_def pendingMap_set_def match_name_def line_terminator_def)
  note t1 = identifier_from_last_dot [of "''my.photo.jpg''" "''my.photo''" "''jpg''" ?f1 Map.empty
      "[]" "[?f1, ?f2]" "bucket True" ?xs "(?w, [])" ?res s']
  note t2 = identifier_from_last_dot [of "''README''" "''README''" "[]" ?f2 Map.empty
      "[]" "[?f1, ?f2]" "bucket True" ?xs "(?w, [])" ?res s']
  from t1 parts have "match_name ''my.photo.jpg'' = Some (''my.photo'', ''jpg'')" by blast
  moreover from t2 nodot have "match_name ''README'' = None" by blast
  moreover from t2 none have "pendingMap_set Map.empty ?f2 = Map.empty" by blast
  moreover from t1 some have "pendingMap_set Map.empty ?f1
       = [''my.photo'' \<mapsto> \<lparr>info_fileName = ''my.photo.jpg'', info_fileUuid = ''u-1'',
                            info_extension = ''jpg'', info_link = Some ''https://ipfs/1''\<rparr>]"
    by simp
  moreover from t2 unmatched have "pendingMap_of [?f1, ?f2] ''README'' = None" by blast
  moreover from t1 run' have "\<forall>entry \<in> set (moved ?res). \<exists>f \<in> set [?f1, ?f2]. \<exists>a e.
            match_name (file_name f) = Some (a, e)
            \<and> entry = (JStr a, ''pending/'' @ file_name f, ''approved/'' @ file_name f)"
    by blast
  moreover from t1 run' inlist found
  have "JStr ''my.photo'' \<notin> fst ` set (skipped ?res)
        \<and> JStr ''my.photo'' \<in> fst ` set (moved ?res) \<union> fst ` set (errors ?res)"
    by blast
  ultimately show ?thesis by auto
qed

text \<open>C9, as stated, fails for a name with nothing before its last dot: \<open>.jpg\<close> has the
  extension \<open>jpg\<close>, yet it yields no identifier, and a sync of the empty address skips
  it.\<close>

theorem nameless_file_not_eligible:
  "match_name ''.jpg'' = None
   \<and> fst (handleSyncApprovedMembers (bucket True)
            (post ''/sync-approved-members'' (Some ''http://localhost:3000'')
               (JObj [(''addresses'', JArr [JStr []])]))
            env0 ''http://localhost:3000''
            ([stored ''pending'' ''.jpg'' ''u-1'' (Some ''https://ipfs/1'')], []))
     = Inr (jsonResponse
              (Synced \<lparr>moved = [], skipped = [(JStr [], ''No pending image found'')],
                       errors = []\<rparr>)
              200 (Some ''http://localhost:3000''))"
  by (simp add: run_defs)

subsection \<open>Batch sync: request validation\<close>

text \<open>
  C10. When the body of a \<^verbatim>\<open>POST\<close> to the sync handler parsed to a non-null JSON value
  whose \<^verbatim>\<open>addresses\<close> field is missing, is not an array, or is the empty array, the
  answer is the 400 response \<open>Invalid addresses array\<close>, and the backend state and the
  list of backend calls are unchanged.
\<close>

theorem sync_invalid_addresses_400:
  assumes "req_method request = ''POST''" and "req_json request = Inr body" and "body \<noteq> JNull"
    and "\<forall>xs. get_prop body ''addresses'' = Some (JArr xs) \<longrightarrow> xs = []"
  shows "handleSyncApprovedMembers be request env origin s
           = (Inr (jsonResponse (Error ''Invalid addresses array'') 400 (Some origin)), s)"
proof (cases "get_prop body ''addresses''")
  case None
  with assms show ?thesis
    by (simp add: handleSyncApprovedMembers_def sync_try_def)
next
  case (Some j)
  with assms show ?thesis
    by (cases j) (simp_all add: handleSyncApprovedMembers_def sync_try_def)
qed

theorem sync_invalid_addresses_400_witness:
  "handleSyncApprovedMembers (bucket True)
     (post ''/sync-approved-members'' (Some ''http://localhost:3000'')
        (JObj [(''addresses'', JStr ''ADDR1'')]))
     env0 ''http://localhost:3000'' ([], [])
   = (Inr (jsonResponse (Error ''Invalid addresses array'') 400 (Some ''http://localhost:3000'')),
      ([], []))"
proof -
  let ?body = "JObj [(''addresses'', JStr ''ADDR1'')]"
  let ?request = "post ''/sync-approved-members'' (Some ''http://localhost:3000'') ?body"
  have a: "req_method ?request = ''POST''" by (simp add: post_def)
  have b: "req_json ?request = Inr ?body" by (simp add: post_def)
  have c: "?body \<noteq> JNull" by simp
  have d: "\<forall>xs. get_prop ?body ''addresses'' = Some (JArr xs) \<longrightarrow> xs = []" by simp
  from sync_invalid_addresses_400 [OF a b c d, of "bucket True" env0 "''http://localhost:3000''" "([], [])"]
  show ?thesis .
qed

end
